theory Spec2Isabelle
  imports Main "HOL-Library.Char_ord" "HOL-Library.List_Lexorder"
begin

section \<open>JavaScript strings and numbers as the file server uses them\<close>

text \<open>
  Strings are sequences of character codes; every string the file server builds for a
  backup key is ASCII, so a \<^typ>\<open>string\<close> (a list of \<^typ>\<open>char\<close>) with the order of
  the character codes is the comparison JavaScript and the object store use.
\<close>

definition startsWith :: "string \<Rightarrow> string \<Rightarrow> bool" where
  "startsWith s p = (take (length p) s = p)"

definition endsWith :: "string \<Rightarrow> string \<Rightarrow> bool" where
  "endsWith s p = (length p \<le> length s \<and> drop (length s - length p) s = p)"

fun includes_str :: "string \<Rightarrow> string \<Rightarrow> bool" where
  "includes_str [] p = (p = [])"
| "includes_str (c # cs) p = (startsWith (c # cs) p \<or> includes_str cs p)"

text \<open>\<open>s.split(c)\<close>: the pieces between the separators; the empty string has one piece.\<close>

fun split_on :: "char \<Rightarrow> string \<Rightarrow> string list" where
  "split_on c [] = [[]]"
| "split_on c (x # xs) =
     (if x = c then [] # split_on c xs
      else (case split_on c xs of [] \<Rightarrow> [[x]] | p # ps \<Rightarrow> (x # p) # ps))"

text \<open>\<open>s.lastIndexOf(c)\<close>: the last position of \<open>c\<close>, or \<open>-1\<close>.\<close>

fun lastIndexOf_from :: "string \<Rightarrow> char \<Rightarrow> int \<Rightarrow> int \<Rightarrow> int" where
  "lastIndexOf_from [] c i found = found"
| "lastIndexOf_from (x # xs) c i found = lastIndexOf_from xs c (i + 1) (if x = c then i else found)"

definition lastIndexOf :: "string \<Rightarrow> char \<Rightarrow> int" where
  "lastIndexOf s c = lastIndexOf_from s c 0 (- 1)"

text \<open>\<open>s.substring(0, n)\<close>: a negative \<open>n\<close> counts as 0, one past the end as the length.\<close>

definition substring0 :: "string \<Rightarrow> int \<Rightarrow> string" where
  "substring0 s n = take (nat n) s"

definition digit_char :: "nat \<Rightarrow> char" where
  "digit_char d = char_of (48 + d)"

text \<open>\<open>String(n)\<close> for a non-negative integer: its decimal digits, no leading zero.\<close>

fun string_of_nat :: "nat \<Rightarrow> string" where
  "string_of_nat n =
     (if n < 10 then [digit_char n] else string_of_nat (n div 10) @ [digit_char (n mod 10)])"

declare string_of_nat.simps [simp del]

text \<open>\<open>String(n)\<close> for an integer: a minus sign in front of a negative one.\<close>

definition js_String :: "int \<Rightarrow> string" where
  "js_String n = (if n < 0 then CHR ''-'' # string_of_nat (nat (- n)) else string_of_nat (nat n))"

text \<open>\<open>s.padStart(w, '0')\<close>: zeros in front until the length is \<open>w\<close>; a longer string is kept.\<close>

definition padStart :: "string \<Rightarrow> nat \<Rightarrow> char \<Rightarrow> string" where
  "padStart s w c = replicate (w - length s) c @ s"

section \<open>Dates\<close>

text \<open>
  A \<open>Date\<close> is its time value: milliseconds since 1970-01-01T00:00:00Z. The UTC getters
  are the platform's (ECMAScript), not the repository's; they are written out here with
  the usual days-to-civil computation of the proleptic Gregorian calendar so that a key
  can be computed.
\<close>

type_synonym Date = int

definition getTime :: "Date \<Rightarrow> int" where
  "getTime d = d"

definition msPerDay :: int where
  "msPerDay = 86400000"

definition day_of :: "Date \<Rightarrow> int" where
  "day_of d = d div msPerDay"

definition day_of_era :: "Date \<Rightarrow> int" where
  "day_of_era d = (day_of d + 719468) mod 146097"

definition era_of :: "Date \<Rightarrow> int" where
  "era_of d = (day_of d + 719468) div 146097"

definition year_of_era :: "Date \<Rightarrow> int" where
  "year_of_era d =
     (let doe = day_of_era d
      in (doe - doe div 1460 + doe div 36524 - doe div 146096) div 365)"

definition day_of_year :: "Date \<Rightarrow> int" where
  "day_of_year d =
     (let yoe = year_of_era d
      in day_of_era d - (365 * yoe + yoe div 4 - yoe div 100))"

definition month_index :: "Date \<Rightarrow> int" where
  "month_index d = (5 * day_of_year d + 2) div 153"

definition getUTCMonth :: "Date \<Rightarrow> int" where
  "getUTCMonth d = (let mp = month_index d in if mp < 10 then mp + 2 else mp - 10)"

definition getUTCDate :: "Date \<Rightarrow> int" where
  "getUTCDate d = day_of_year d - (153 * month_index d + 2) div 5 + 1"

definition getUTCFullYear :: "Date \<Rightarrow> int" where
  "getUTCFullYear d =
     year_of_era d + era_of d * 400 + (if getUTCMonth d + 1 \<le> 2 then 1 else 0)"

definition getUTCHours :: "Date \<Rightarrow> int" where
  "getUTCHours d = (d mod msPerDay) div 3600000"

text \<open>\<open>new Date('2125-01-01T00:00:00Z')\<close>: 56613 days after the epoch.\<close>

definition date_2125_01_01 :: Date where
  "date_2125_01_01 = 56613 * msPerDay"

section \<open>Backup keys\<close>

definition MAX_EPOCH_SECONDS :: int where
  "MAX_EPOCH_SECONDS = getTime date_2125_01_01 div 1000"

definition REV_SECONDS_WIDTH :: nat where
  "REV_SECONDS_WIDTH = length (js_String MAX_EPOCH_SECONDS)"

definition formatUTCDateYYYYMMDDHH :: "Date \<Rightarrow> string" where
  "formatUTCDateYYYYMMDDHH d =
     (let yyyy = js_String (getUTCFullYear d);
          MM = padStart (js_String (getUTCMonth d + 1)) 2 CHR ''0'';
          dd = padStart (js_String (getUTCDate d)) 2 CHR ''0'';
          HH = padStart (js_String (getUTCHours d)) 2 CHR ''0''
      in yyyy @ MM @ dd @ HH)"

definition generateBackupKey :: "string \<Rightarrow> Date \<Rightarrow> string" where
  "generateBackupKey dirName at =
     (let nowSeconds = getTime at div 1000;
          reverseEpochSeconds = MAX_EPOCH_SECONDS - nowSeconds;
          reversePart = padStart (js_String reverseEpochSeconds) REV_SECONDS_WIDTH CHR ''0'';
          datePart = formatUTCDateYYYYMMDDHH at
      in ''backups/'' @ reversePart @ ''_'' @ datePart @ ''_'' @ dirName @ ''.tar.gz'')"

section \<open>The file server: environment, effects and state\<close>

type_synonym bytes = "char list"

text \<open>The environment variables the file server reads; a variable that is unset is \<open>None\<close>.\<close>

record process_env =
  AWS_ACCESS_KEY_ID :: "string option"
  AWS_SECRET_ACCESS_KEY :: "string option"
  AWS_ENDPOINT_URL :: "string option"
  DATA_BUCKET_NAME :: "string option"
  DYNMAP_BUCKET :: "string option"

text \<open>JavaScript truthiness of an environment variable: set and not empty.\<close>

definition truthy :: "string option \<Rightarrow> bool" where
  "truthy v = (case v of None \<Rightarrow> False | Some x \<Rightarrow> x \<noteq> [])"

definition or_else :: "string option \<Rightarrow> string option \<Rightarrow> string option" where
  "or_else a b = (if truthy a then a else b)"

definition env_text :: "string option \<Rightarrow> string" where
  "env_text v = (case v of None \<Rightarrow> ''undefined'' | Some x \<Rightarrow> x)"

datatype bucket_name = Dynmap_bucket | Data_bucket

datatype js_error =
    MissingCredentials
  | FetchRejected
  | PartExhausted nat nat
  | S3ReadFailed
  | S3WriteFailed
  | FileReadFailed string
  | TarCreateFailed int
  | TarExtractFailed int

text \<open>What the object store and the spawned \<open>tar\<close> processes answer. The answers are
  the environment's, so each is a parameter of the run: \<open>head_object\<close> is the HEAD request
  (rejected, not ok, or ok with a parsed \<open>Content-Length\<close> when the header is there),
  \<open>get_range key start end attempt\<close> the ranged GET of one attempt, \<open>get_object\<close> the
  whole-object read of the S3 client (\<open>None\<close>: it throws), \<open>put_object\<close> whether an upload
  succeeds, \<open>tar_create parent dir\<close> the exit code of the archiver and the archive it left
  in its output file, \<open>tar_extract archive parent\<close> the exit code of the extraction.\<close>

datatype head_response = HeadRejected | HeadNotOk | HeadOk "nat option"

datatype range_response = RangeRejected | RangeNotOk | RangeBody bytes

record world =
  head_object :: "string \<Rightarrow> head_response"
  get_range :: "string \<Rightarrow> nat \<Rightarrow> nat \<Rightarrow> nat \<Rightarrow> range_response"
  get_object :: "string \<Rightarrow> bytes option"
  put_object :: "string \<Rightarrow> bytes \<Rightarrow> bool"
  tar_create :: "string \<Rightarrow> string \<Rightarrow> int \<times> bytes option"
  tar_extract :: "bytes option \<Rightarrow> string \<Rightarrow> int"

text \<open>The effects a run leaves behind, in order: requests to the object store, writes to
  the container's file system, spawned processes, and the log lines of the job table.\<close>

datatype effect =
    HttpHead string
  | HttpGetRange string nat nat
  | S3FileRead string
  | S3Write string bytes
  | FsWrite string bytes
  | FsUnlink string
  | Mkdir string
  | TarCreate string string string
  | TarExtract string string
  | WarnPartSize nat nat nat
  | WarnSizeMismatch nat nat
  | LogJobCreated string string
  | LogJobExecution string string

datatype job_status = Pending | Running | Success | Failed

record backup_result =
  backup_path :: string
  result_size :: nat
  result_note :: "string option"

record job =
  job_id :: string
  job_directory :: string
  job_status :: job_status
  startedAt :: int
  completedAt :: "int option"
  job_result :: "backup_result option"
  job_error :: "js_error option"

text \<open>A job that has spawned its archiver and waits for it to exit keeps what the rest of
  \<open>executeBackupJob\<close> uses: the job object, the backup's key, the temp file and the
  archiver's arguments.\<close>

record awaiting_tar =
  waiting_job :: job
  waiting_key :: string
  waiting_tempFile :: string
  waiting_parentDir :: string
  waiting_dirName :: string

record FileServer =
  requestCount :: nat
  backupCount :: nat
  restoreCount :: nat
  activeRestores :: int
  backupJobs :: "string \<rightharpoonup> job"
  awaiting :: "awaiting_tar list"
  files :: "string \<rightharpoonup> bytes"
  effects :: "effect list"

definition emit :: "effect \<Rightarrow> FileServer \<Rightarrow> FileServer" where
  "emit e s = s\<lparr>effects := effects s @ [e]\<rparr>"

text \<open>\<open>Bun.write(path, data)\<close>, the helper \<open>unlink\<close> (\<open>rm -f\<close>) and \<open>ensureDirectory\<close>
  (\<open>mkdir -p\<close>).\<close>

definition bun_write :: "string \<Rightarrow> bytes \<Rightarrow> FileServer \<Rightarrow> FileServer" where
  "bun_write path data s = emit (FsWrite path data) (s\<lparr>files := (files s)(path \<mapsto> data)\<rparr>)"

definition unlink :: "string \<Rightarrow> FileServer \<Rightarrow> FileServer" where
  "unlink path s = emit (FsUnlink path) (s\<lparr>files := (files s)(path := None)\<rparr>)"

definition ensureDirectory :: "string \<Rightarrow> FileServer \<Rightarrow> FileServer" where
  "ensureDirectory path s = emit (Mkdir path) s"

text \<open>\<open>(await Bun.file(path).stat())?.size || 0\<close>.\<close>

definition stat_size :: "FileServer \<Rightarrow> string \<Rightarrow> nat" where
  "stat_size s path = (case files s path of None \<Rightarrow> 0 | Some data \<Rightarrow> length data)"

text \<open>The extractions and the uploads among the effects.\<close>

definition is_extraction :: "effect \<Rightarrow> bool" where
  "is_extraction e = (case e of TarExtract _ _ \<Rightarrow> True | _ \<Rightarrow> False)"

definition is_upload :: "effect \<Rightarrow> bool" where
  "is_upload e = (case e of S3Write _ _ \<Rightarrow> True | _ \<Rightarrow> False)"

section \<open>Configuration\<close>

definition MAX_RETRIES :: nat where
  "MAX_RETRIES = 3"

definition LARGE_FILE_THRESHOLD :: nat where
  "LARGE_FILE_THRESHOLD = 100 * 1024 * 1024"

definition DOWNLOAD_CHUNK_SIZE :: nat where
  "DOWNLOAD_CHUNK_SIZE = 50 * 1024 * 1024"

definition MAX_CONCURRENT_DOWNLOADS :: nat where
  "MAX_CONCURRENT_DOWNLOADS = 5"

text \<open>\<open>createS3Client\<close>: throws unless the key id, the secret, the endpoint and the bucket
  of the chosen name are all set.\<close>

definition createS3Client :: "process_env \<Rightarrow> bucket_name \<Rightarrow> js_error + unit" where
  "createS3Client env bucketName =
     (let bucket = (if bucketName = Data_bucket then DATA_BUCKET_NAME env else DYNMAP_BUCKET env)
      in if \<not> truthy (AWS_ACCESS_KEY_ID env) \<or> \<not> truthy (AWS_SECRET_ACCESS_KEY env)
            \<or> \<not> truthy (AWS_ENDPOINT_URL env) \<or> \<not> truthy bucket
         then Inl MissingCredentials else Inr ())"

text \<open>The direct URL of an object: \<open>${endpoint}/${bucket}/${key}\<close>, the bucket being
  \<open>DATA_BUCKET_NAME || DYNMAP_BUCKET\<close>.\<close>

definition object_url :: "process_env \<Rightarrow> string \<Rightarrow> string" where
  "object_url env key =
     env_text (AWS_ENDPOINT_URL env) @ ''/''
       @ env_text (or_else (DATA_BUCKET_NAME env) (DYNMAP_BUCKET env)) @ ''/'' @ key"

section \<open>Responses\<close>

datatype error_message =
    InvalidBackupFilename
  | BackupNotFound string
  | RestoreFailed js_error
  | BackupFailed js_error

record restore_result =
  restored_from :: string
  restored_to :: string
  restore_size :: nat
  restore_note :: "string option"

record job_state =
  state_id :: string
  state_directory :: string
  state_status :: job_status
  state_startedAt :: int
  state_completedAt :: "int option"

record job_started =
  started_id :: string
  started :: bool
  started_directory :: string
  started_status :: job_status
  started_startedAt :: int

datatype response_body =
    ErrorJson error_message
  | RestoreJson restore_result
  | BackupJson backup_result
  | JobStateJson job_state
  | JobStartedJson job_started

record http_response =
  status :: nat
  body :: response_body

section \<open>Ranged downloads\<close>

text \<open>The attempts of \<open>downloadRangeWithRetry\<close>, from \<open>attempt\<close> up to \<open>MAX_RETRIES\<close>: a
  rejected fetch, a response that is not ok and a body that cannot be read all throw inside
  the \<open>try\<close> and lead to the next attempt; a body of the wrong length is logged and
  returned. The pauses between attempts are not modelled.\<close>

function downloadRange_attempts ::
  "process_env \<Rightarrow> world \<Rightarrow> string \<Rightarrow> nat \<Rightarrow> nat \<Rightarrow> nat \<Rightarrow> nat \<Rightarrow> nat \<Rightarrow> FileServer
    \<Rightarrow> (js_error + bytes) \<times> FileServer" where
  "downloadRange_attempts env w key start end' partNumber totalParts attempt s =
     (if attempt \<le> MAX_RETRIES then
        (let s1 = emit (HttpGetRange (object_url env key) start end') s
         in case get_range w key start end' attempt of
              RangeBody data \<Rightarrow>
                (Inr data,
                 if int (length data) \<noteq> int end' - int start + 1
                 then emit (WarnPartSize partNumber (length data) (end' - start + 1)) s1 else s1)
            | _ \<Rightarrow> downloadRange_attempts env w key start end' partNumber totalParts (attempt + 1) s1)
      else (Inl (PartExhausted partNumber totalParts), s))"
  by pat_completeness auto
termination
  by (relation "measure (\<lambda>(env, w, key, start, end', partNumber, totalParts, attempt, s).
        Suc MAX_RETRIES - attempt)") auto

declare downloadRange_attempts.simps [simp del]

definition downloadRangeWithRetry ::
  "process_env \<Rightarrow> world \<Rightarrow> string \<Rightarrow> nat \<Rightarrow> nat \<Rightarrow> nat \<Rightarrow> nat \<Rightarrow> FileServer
    \<Rightarrow> (js_error + bytes) \<times> FileServer" where
  "downloadRangeWithRetry env w key start end' partNumber totalParts s =
     downloadRange_attempts env w key start end' partNumber totalParts 1 s"

section \<open>Multipart download\<close>

record download_task =
  partNumber :: nat
  range_start :: nat
  range_end :: nat
  task_tempFile :: string

text \<open>\<open>Math.ceil(a / b)\<close> for non-negative integers.\<close>

definition ceil_div :: "nat \<Rightarrow> nat \<Rightarrow> nat" where
  "ceil_div a b = (a + b - 1) div b"

definition part_name :: "string \<Rightarrow> nat \<Rightarrow> string" where
  "part_name tempFile i = tempFile @ ''.part'' @ string_of_nat i"

definition make_task :: "string \<Rightarrow> nat \<Rightarrow> nat \<Rightarrow> download_task" where
  "make_task tempFile fileSize i =
     (let start = i * DOWNLOAD_CHUNK_SIZE;
          end' = min (start + DOWNLOAD_CHUNK_SIZE - 1) (fileSize - 1)
      in \<lparr>partNumber = i + 1, range_start = start, range_end = end',
          task_tempFile = part_name tempFile i\<rparr>)"

definition download_tasks :: "string \<Rightarrow> nat \<Rightarrow> download_task list" where
  "download_tasks tempFile fileSize =
     map (make_task tempFile fileSize) [0..<ceil_div fileSize DOWNLOAD_CHUNK_SIZE]"

text \<open>\<open>downloadPart\<close>: fetch the range, then write it to the part's file.\<close>

definition downloadPart ::
  "process_env \<Rightarrow> world \<Rightarrow> string \<Rightarrow> nat \<Rightarrow> download_task \<Rightarrow> FileServer
    \<Rightarrow> js_error option \<times> FileServer" where
  "downloadPart env w key numParts task s =
     (case downloadRangeWithRetry env w key (range_start task) (range_end task)
             (partNumber task) numParts s of
        (Inl e, s1) \<Rightarrow> (Some e, s1)
      | (Inr data, s1) \<Rightarrow> (None, bun_write (task_tempFile task) data s1))"

text \<open>One batch under \<open>Promise.all\<close>: every part of the batch is started and runs to its
  end; the batch fails when one of them does (the error kept is that of the first failing
  part in index order). The parts of one batch are run one after the other here.\<close>

fun download_batch ::
  "process_env \<Rightarrow> world \<Rightarrow> string \<Rightarrow> nat \<Rightarrow> download_task list \<Rightarrow> FileServer
    \<Rightarrow> js_error option \<times> FileServer" where
  "download_batch env w key numParts [] s = (None, s)"
| "download_batch env w key numParts (t # ts) s =
     (case downloadPart env w key numParts t s of
        (r, s1) \<Rightarrow>
          (case download_batch env w key numParts ts s1 of
             (rs, s2) \<Rightarrow> ((case r of Some e \<Rightarrow> Some e | None \<Rightarrow> rs), s2)))"

text \<open>\<open>xs.slice(a, b)\<close> for \<open>a \<le> b\<close>.\<close>

definition slice :: "'a list \<Rightarrow> nat \<Rightarrow> nat \<Rightarrow> 'a list" where
  "slice xs a b = take (b - a) (drop a xs)"

text \<open>The loop over the batches, from index \<open>i\<close> in steps of \<open>MAX_CONCURRENT_DOWNLOADS\<close>:
  a batch that fails throws, and no later batch is started.\<close>

function download_batches ::
  "process_env \<Rightarrow> world \<Rightarrow> string \<Rightarrow> nat \<Rightarrow> download_task list \<Rightarrow> nat \<Rightarrow> FileServer
    \<Rightarrow> js_error option \<times> FileServer" where
  "download_batches env w key numParts tasks i s =
     (if i < length tasks then
        (case download_batch env w key numParts (slice tasks i (i + MAX_CONCURRENT_DOWNLOADS)) s of
           (Some e, s1) \<Rightarrow> (Some e, s1)
         | (None, s1) \<Rightarrow>
             download_batches env w key numParts tasks (i + MAX_CONCURRENT_DOWNLOADS) s1)
      else (None, s))"
  by pat_completeness auto
termination
  by (relation "measure (\<lambda>(env, w, key, numParts, tasks, i, s). length tasks - i)")
     (auto simp: MAX_CONCURRENT_DOWNLOADS_def)

declare download_batches.simps [simp del]

text \<open>Reconstitution: the parts are read back in index order and appended to the target;
  each part file is removed after it is read. A part file that cannot be read throws. The
  target's writer is closed at the end, which is when the target has its content.\<close>

fun reconstitute ::
  "string \<Rightarrow> nat list \<Rightarrow> bytes \<Rightarrow> FileServer \<Rightarrow> (js_error + bytes) \<times> FileServer" where
  "reconstitute tempFile [] acc s = (Inr acc, s)"
| "reconstitute tempFile (i # rest) acc s =
     (case files s (part_name tempFile i) of
        None \<Rightarrow> (Inl (FileReadFailed (part_name tempFile i)), s)
      | Some partData \<Rightarrow>
          reconstitute tempFile rest (acc @ partData) (unlink (part_name tempFile i) s))"

definition downloadLargeFile ::
  "process_env \<Rightarrow> world \<Rightarrow> string \<Rightarrow> string \<Rightarrow> nat \<Rightarrow> FileServer
    \<Rightarrow> js_error option \<times> FileServer" where
  "downloadLargeFile env w key tempFile fileSize s =
     (let numParts = ceil_div fileSize DOWNLOAD_CHUNK_SIZE;
          downloadTasks = download_tasks tempFile fileSize
      in case download_batches env w key numParts downloadTasks 0 s of
           (Some e, s1) \<Rightarrow> (Some e, s1)
         | (None, s1) \<Rightarrow>
             (case reconstitute tempFile [0..<numParts] [] s1 of
                (Inl e, s2) \<Rightarrow> (Some e, s2)
              | (Inr content, s2) \<Rightarrow> (None, bun_write tempFile content s2)))"

text \<open>The simple download of a small object: read it whole, write it to the temp file.\<close>

definition simple_download ::
  "world \<Rightarrow> string \<Rightarrow> string \<Rightarrow> FileServer \<Rightarrow> js_error option \<times> FileServer" where
  "simple_download w key tempFile s =
     (let s1 = emit (S3FileRead key) s
      in case get_object w key of
           None \<Rightarrow> (Some S3ReadFailed, s1)
         | Some fileData \<Rightarrow> (None, bun_write tempFile fileData s1))"

section \<open>Restore\<close>

definition normalize_directory :: "string \<Rightarrow> string" where
  "normalize_directory pathname = (if \<not> startsWith pathname ''/'' then ''/'' @ pathname else pathname)"

text \<open>\<open>directory.substring(0, directory.lastIndexOf("/")) || "/"\<close>.\<close>

definition parent_of :: "string \<Rightarrow> string" where
  "parent_of directory =
     (let p = substring0 directory (lastIndexOf directory CHR ''/'') in if p = [] then ''/'' else p)"

text \<open>\<open>directory.split("/").filter(Boolean).pop() || "backup"\<close>.\<close>

definition dirName_of :: "string \<Rightarrow> string" where
  "dirName_of directory =
     (let parts = filter (\<lambda>p. p \<noteq> []) (split_on CHR ''/'' directory)
      in if parts = [] then ''backup'' else last parts)"

text \<open>The second half of \<open>handleRestore\<close>'s \<open>try\<close> block: the size check, which only logs,
  then the parent directory, the extraction and the success response.\<close>

definition verify_and_extract ::
  "world \<Rightarrow> string \<Rightarrow> string \<Rightarrow> string \<Rightarrow> nat \<Rightarrow> FileServer
    \<Rightarrow> (js_error + http_response) \<times> FileServer" where
  "verify_and_extract w directory backupFilename tempFile fileSize s =
     (let downloadedSize = stat_size s tempFile;
          s1 = (if downloadedSize \<noteq> fileSize
                then emit (WarnSizeMismatch downloadedSize fileSize) s else s);
          parentDir = parent_of directory;
          s2 = ensureDirectory parentDir s1;
          s3 = emit (TarExtract tempFile parentDir) s2;
          tarExit = tar_extract w (files s3 tempFile) parentDir
      in if tarExit \<noteq> 0 then (Inl (TarExtractFailed tarExit), s3)
         else (Inr \<lparr>status = 200,
                     body = RestoreJson \<lparr>restored_from = backupFilename, restored_to = directory,
                              restore_size = downloadedSize,
                              restore_note = Some ''complete restore''\<rparr>\<rparr>,
               unlink tempFile s3))"

text \<open>The temp file of a restore, and the choice of the download method by the size the
  HEAD request reported.\<close>

definition restore_tempFile :: "string \<Rightarrow> string" where
  "restore_tempFile timestamp = ''/tmp/restore_'' @ timestamp @ ''.tar.gz''"

definition download_backup ::
  "process_env \<Rightarrow> world \<Rightarrow> string \<Rightarrow> string \<Rightarrow> nat \<Rightarrow> FileServer
    \<Rightarrow> js_error option \<times> FileServer" where
  "download_backup env w backupFilename tempFile fileSize s =
     (if fileSize \<ge> LARGE_FILE_THRESHOLD
      then downloadLargeFile env w backupFilename tempFile fileSize s
      else simple_download w backupFilename tempFile s)"

text \<open>The \<open>try\<close> block of \<open>handleRestore\<close>; \<open>Inl\<close> is a throw. \<open>timestamp\<close> is the clock's
  reading that names the temp file.\<close>

definition handleRestore_try ::
  "process_env \<Rightarrow> world \<Rightarrow> string \<Rightarrow> string \<Rightarrow> string \<Rightarrow> FileServer
    \<Rightarrow> (js_error + http_response) \<times> FileServer" where
  "handleRestore_try env w pathname backupFilename timestamp s =
     (let directory = normalize_directory pathname
      in case createS3Client env Data_bucket of
           Inl e \<Rightarrow> (Inl e, s)
         | Inr s3Client \<Rightarrow>
             if includes_str backupFilename ''..'' \<or> \<not> startsWith backupFilename ''backups/''
             then (Inr \<lparr>status = 400, body = ErrorJson InvalidBackupFilename\<rparr>, s)
             else
               (let s1 = emit (HttpHead (object_url env backupFilename)) s
                in case head_object w backupFilename of
                     HeadRejected \<Rightarrow> (Inl FetchRejected, s1)
                   | HeadNotOk \<Rightarrow>
                       (Inr \<lparr>status = 404, body = ErrorJson (BackupNotFound backupFilename)\<rparr>, s1)
                   | HeadOk contentLength \<Rightarrow>
                       (let fileSize = (case contentLength of None \<Rightarrow> 0 | Some n \<Rightarrow> n);
                            tempFile = restore_tempFile timestamp
                        in case download_backup env w backupFilename tempFile fileSize s1 of
                             (Some e, s2) \<Rightarrow> (Inl e, s2)
                           | (None, s2) \<Rightarrow>
                               verify_and_extract w directory backupFilename tempFile fileSize s2)))"

text \<open>\<open>handleRestore\<close>: the counters, the \<open>try\<close> block, the \<open>catch\<close> (a 500 response) and
  the \<open>finally\<close>.\<close>

definition handleRestore ::
  "process_env \<Rightarrow> world \<Rightarrow> string \<Rightarrow> string \<Rightarrow> string \<Rightarrow> FileServer
    \<Rightarrow> http_response \<times> FileServer" where
  "handleRestore env w pathname backupFilename timestamp s =
     (let s0 = s\<lparr>restoreCount := restoreCount s + 1, activeRestores := activeRestores s + 1\<rparr>
      in case handleRestore_try env w pathname backupFilename timestamp s0 of
           (r, s1) \<Rightarrow>
             ((case r of
                 Inr response \<Rightarrow> response
               | Inl e \<Rightarrow> \<lparr>status = 500, body = ErrorJson (RestoreFailed e)\<rparr>),
              s1\<lparr>activeRestores := activeRestores s1 - 1\<rparr>))"

section \<open>Backup\<close>

text \<open>The archiver is spawned with the temp file as its output; what it left there and its
  exit code are the environment's answer.\<close>

definition run_tar_create :: "world \<Rightarrow> string \<Rightarrow> string \<Rightarrow> string \<Rightarrow> FileServer \<Rightarrow> int \<times> FileServer" where
  "run_tar_create w tempFile parentDir dirName s =
     (case tar_create w parentDir dirName of
        (tarExit, archive) \<Rightarrow>
          (tarExit,
           (case archive of None \<Rightarrow> s | Some a \<Rightarrow> s\<lparr>files := (files s)(tempFile \<mapsto> a)\<rparr>)))"

text \<open>The upload \<open>s3Client.write(key, Bun.file(tempFile))\<close> and the clean-up after it: a
  temp file that is not there, or an upload the store refuses, throws.\<close>

definition upload_archive ::
  "world \<Rightarrow> string \<Rightarrow> string \<Rightarrow> FileServer \<Rightarrow> js_error option \<times> FileServer" where
  "upload_archive w key tempFile s =
     (case files s tempFile of
        None \<Rightarrow> (Some (FileReadFailed tempFile), s)
      | Some content \<Rightarrow>
          (let s1 = emit (S3Write key content) s
           in if put_object w key content
              then (None, unlink tempFile (bun_write tempFile [] s1))
              else (Some S3WriteFailed, s1)))"

text \<open>The \<open>try\<close> block of \<open>handleBackup\<close>.\<close>

definition handleBackup_try ::
  "process_env \<Rightarrow> world \<Rightarrow> string \<Rightarrow> Date \<Rightarrow> FileServer
    \<Rightarrow> (js_error + http_response) \<times> FileServer" where
  "handleBackup_try env w pathname now s =
     (let directory = normalize_directory pathname
      in case createS3Client env Data_bucket of
           Inl e \<Rightarrow> (Inl e, s)
         | Inr s3Client \<Rightarrow>
             (let dirName = dirName_of directory;
                  backupFilename = generateBackupKey dirName now;
                  tempFile = ''/tmp/backup_'' @ formatUTCDateYYYYMMDDHH now @ ''.tar.gz'';
                  parentDir = parent_of directory
              in case run_tar_create w tempFile parentDir dirName
                        (emit (TarCreate tempFile parentDir dirName) s) of
                   (tarExit, s1) \<Rightarrow>
                     if tarExit \<noteq> 0 then (Inl (TarCreateFailed tarExit), s1)
                     else
                       (let fileSize = stat_size s1 tempFile
                        in case upload_archive w backupFilename tempFile s1 of
                             (Some e, s2) \<Rightarrow> (Inl e, s2)
                           | (None, s2) \<Rightarrow>
                               (Inr \<lparr>status = 200,
                                      body = BackupJson \<lparr>backup_path = backupFilename,
                                               result_size = fileSize,
                                               result_note = Some ''complete backup''\<rparr>\<rparr>,
                                s2))))"

definition handleBackup ::
  "process_env \<Rightarrow> world \<Rightarrow> string \<Rightarrow> Date \<Rightarrow> FileServer \<Rightarrow> http_response \<times> FileServer" where
  "handleBackup env w pathname now s =
     (case handleBackup_try env w pathname now (s\<lparr>backupCount := backupCount s + 1\<rparr>) of
        (r, s1) \<Rightarrow>
          ((case r of
              Inr response \<Rightarrow> response
            | Inl e \<Rightarrow> \<lparr>status = 500, body = ErrorJson (BackupFailed e)\<rparr>),
           s1))"

section \<open>Background backup jobs\<close>

text \<open>The job object is shared by the job table and by the running job; a change of the
  job is written to the table under the job's id (\<open>this.backupJobs.set(id, job)\<close>).\<close>

definition set_job :: "job \<Rightarrow> FileServer \<Rightarrow> FileServer" where
  "set_job j s = s\<lparr>backupJobs := (backupJobs s)(job_id j \<mapsto> j)\<rparr>"

definition fail_job :: "job \<Rightarrow> js_error \<Rightarrow> Date \<Rightarrow> job" where
  "fail_job j e now = j\<lparr>job_status := Failed, completedAt := Some now, job_error := Some e\<rparr>"

text \<open>\<open>executeBackupJob\<close> runs in the caller's turn up to its first \<open>await\<close>, the exit of
  the archiver: it marks the job running, creates the client, names the backup and spawns
  \<open>tar\<close>. A throw on the way is caught and fails the job.\<close>

definition executeBackupJob_begin ::
  "process_env \<Rightarrow> job \<Rightarrow> Date \<Rightarrow> FileServer \<Rightarrow> job \<times> awaiting_tar option \<times> FileServer" where
  "executeBackupJob_begin env j now s =
     (let s0 = emit (LogJobExecution (job_id j) (job_directory j)) s;
          j1 = j\<lparr>job_status := Running\<rparr>;
          s1 = set_job j1 s0
      in case createS3Client env Data_bucket of
           Inl e \<Rightarrow> (fail_job j1 e now, None, set_job (fail_job j1 e now) s1)
         | Inr s3Client \<Rightarrow>
             (let dirName = dirName_of (job_directory j);
                  backupFilename = generateBackupKey dirName now;
                  tempFile = ''/tmp/backup_'' @ formatUTCDateYYYYMMDDHH now @ ''_'' @ job_id j
                               @ ''.tar.gz'';
                  parentDir = parent_of (job_directory j)
              in (j1,
                  Some \<lparr>waiting_job = j1, waiting_key = backupFilename,
                         waiting_tempFile = tempFile, waiting_parentDir = parentDir,
                         waiting_dirName = dirName\<rparr>,
                  emit (TarCreate tempFile parentDir dirName) s1)))"

text \<open>The rest of \<open>executeBackupJob\<close>, once the archiver has exited: a non-zero exit code
  throws before anything is uploaded; the \<open>catch\<close> fails the job. The upload and what
  follows it run in the same step here.\<close>

definition executeBackupJob_resume ::
  "world \<Rightarrow> awaiting_tar \<Rightarrow> Date \<Rightarrow> FileServer \<Rightarrow> FileServer" where
  "executeBackupJob_resume w a now s =
     (let j = waiting_job a
      in case run_tar_create w (waiting_tempFile a) (waiting_parentDir a) (waiting_dirName a) s of
           (tarExit, s1) \<Rightarrow>
             if tarExit \<noteq> 0 then set_job (fail_job j (TarCreateFailed tarExit) now) s1
             else
               (let fileSize = stat_size s1 (waiting_tempFile a)
                in case upload_archive w (waiting_key a) (waiting_tempFile a) s1 of
                     (Some e, s2) \<Rightarrow> set_job (fail_job j e now) s2
                   | (None, s2) \<Rightarrow>
                       set_job (j\<lparr>job_status := Success, completedAt := Some now,
                                  job_result := Some \<lparr>backup_path = waiting_key a,
                                                  result_size = fileSize,
                                                  result_note = Some ''complete backup''\<rparr>\<rparr>) s2))"

text \<open>\<open>handleBackgroundBackupStart\<close>: an id that is in the job table is answered with that
  job's state; otherwise the job is created and started.\<close>

definition handleBackgroundBackupStart ::
  "process_env \<Rightarrow> string \<Rightarrow> string \<Rightarrow> Date \<Rightarrow> FileServer \<Rightarrow> http_response \<times> FileServer" where
  "handleBackgroundBackupStart env pathname ident now s =
     (let directory = normalize_directory pathname
      in case backupJobs s ident of
           Some existing \<Rightarrow>
             (\<lparr>status = 200,
               body = JobStateJson
                        \<lparr>state_id = job_id existing, state_directory = job_directory existing,
                         state_status = job_status existing,
                         state_startedAt = startedAt existing,
                         state_completedAt = completedAt existing\<rparr>\<rparr>, s)
         | None \<Rightarrow>
             (let j = \<lparr>job_id = ident, job_directory = directory, job_status = Pending,
                       startedAt = now, completedAt = None, job_result = None,
                       job_error = None\<rparr>;
                  s1 = emit (LogJobCreated ident directory)
                         (s\<lparr>backupJobs := (backupJobs s)(ident \<mapsto> j),
                            backupCount := backupCount s + 1\<rparr>)
              in case executeBackupJob_begin env j now s1 of
                   (j', a, s2) \<Rightarrow>
                     (\<lparr>status = 200,
                       body = JobStartedJson
                                \<lparr>started_id = ident, started = True,
                                 started_directory = directory,
                                 started_status = job_status j',
                                 started_startedAt = startedAt j'\<rparr>\<rparr>,
                      (case a of None \<Rightarrow> s2 | Some x \<Rightarrow> s2\<lparr>awaiting := awaiting s2 @ [x]\<rparr>))))"

text \<open>What happens to the file server over time: a request to start a background backup,
  or the archiver of one waiting job exits and that job runs to its end.\<close>

datatype event = StartBackup string string Date | TarExited nat Date

fun step :: "process_env \<Rightarrow> world \<Rightarrow> event \<Rightarrow> FileServer \<Rightarrow> FileServer" where
  "step env w (StartBackup pathname ident now) s =
     snd (handleBackgroundBackupStart env pathname ident now s)"
| "step env w (TarExited k now) s =
     (if k < length (awaiting s)
      then executeBackupJob_resume w (awaiting s ! k) now
             (s\<lparr>awaiting := take k (awaiting s) @ drop (Suc k) (awaiting s)\<rparr>)
      else s)"

fun run :: "process_env \<Rightarrow> world \<Rightarrow> event list \<Rightarrow> FileServer \<Rightarrow> FileServer" where
  "run env w [] s = s"
| "run env w (e # es) s = run env w es (step env w e s)"

definition initial :: FileServer where
  "initial = \<lparr>requestCount = 0, backupCount = 0, restoreCount = 0, activeRestores = 0,
              backupJobs = Map.empty, awaiting = [], files = Map.empty, effects = []\<rparr>"

definition created_count :: "string \<Rightarrow> effect list \<Rightarrow> nat" where
  "created_count ident es =
     length (filter (\<lambda>e. case e of LogJobCreated i d \<Rightarrow> i = ident | _ \<Rightarrow> False) es)"

definition executed_count :: "string \<Rightarrow> effect list \<Rightarrow> nat" where
  "executed_count ident es =
     length (filter (\<lambda>e. case e of LogJobExecution i d \<Rightarrow> i = ident | _ \<Rightarrow> False) es)"

section \<open>The start-up script: restore from the latest backup\<close>

text \<open>The function \<open>restore_from_backup\<close> of the start-up script, as the script calls it
  (\<open>restore_from_backup || ...\<close>, so a failing command inside does not end the script).
  What it sees of its surroundings: the variables it expands (an unset one expands to the
  empty string), whether the file server and the proxy answer at each poll, the two tests
  on the data directory, and the keys of the listing (the texts of the \<open>Key\<close> elements of
  the answer, in document order; \<open>None\<close> when \<open>curl -f\<close> fails). Whether the restore request
  succeeds changes only what is printed.\<close>

record shell_world =
  sh_AWS_ACCESS_KEY_ID :: string
  sh_AWS_ENDPOINT_URL :: string
  sh_DATA_BUCKET_NAME :: string
  sh_DYNMAP_BUCKET :: string
  file_server_ready :: "nat \<Rightarrow> bool"
  proxy_status :: "nat \<Rightarrow> string"
  data_dir_exists :: bool
  level_dat_exists :: bool
  list_backups :: "string \<Rightarrow> string list option"

datatype sh_effect =
    ProbeFileServer
  | ProbeProxy
  | ListRequest string
  | RestoreRequest string

text \<open>\<open>${DATA_BUCKET_NAME:-${DYNMAP_BUCKET:-}}\<close>.\<close>

definition sh_bucket :: "shell_world \<Rightarrow> string" where
  "sh_bucket sw = (if sh_DATA_BUCKET_NAME sw \<noteq> [] then sh_DATA_BUCKET_NAME sw else sh_DYNMAP_BUCKET sw)"

text \<open>The two waiting loops, \<open>for i in $(seq 1 60)\<close>: poll, stop at the first good answer,
  give up after the 60th. The result is whether it became ready, and the probes made.\<close>

function wait_file_server :: "shell_world \<Rightarrow> nat \<Rightarrow> bool \<times> sh_effect list" where
  "wait_file_server sw i =
     (if file_server_ready sw i then (True, [ProbeFileServer])
      else if i \<ge> 60 then (False, [ProbeFileServer])
      else (case wait_file_server sw (i + 1) of (ok, es) \<Rightarrow> (ok, ProbeFileServer # es)))"
  by pat_completeness auto
termination
  by (relation "measure (\<lambda>(sw, i). 60 - i)") auto

declare wait_file_server.simps [simp del]

function wait_proxy :: "shell_world \<Rightarrow> nat \<Rightarrow> bool \<times> sh_effect list" where
  "wait_proxy sw i =
     (if proxy_status sw i = ''CONNECTED'' then (True, [ProbeProxy])
      else if i \<ge> 60 then (False, [ProbeProxy])
      else (case wait_proxy sw (i + 1) of (ok, es) \<Rightarrow> (ok, ProbeProxy # es)))"
  by pat_completeness auto
termination
  by (relation "measure (\<lambda>(sw, i). 60 - i)") auto

declare wait_proxy.simps [simp del]

text \<open>One \<open>Key\<close> element matches \<open>grep -o '<Key>backups/[^<]*_DIR\.tar\.gz</Key>'\<close> when
  its text is \<open>backups/\<close>, then characters other than \<open><\<close>, then \<open>_DIR.tar.gz\<close>.\<close>

definition key_suffix :: "string \<Rightarrow> string" where
  "key_suffix dir_name = ''_'' @ dir_name @ ''.tar.gz''"

definition key_matches :: "string \<Rightarrow> string \<Rightarrow> bool" where
  "key_matches dir_name k =
     (startsWith k ''backups/'' \<and>
      (let rest = drop 8 k
       in endsWith rest (key_suffix dir_name) \<and>
          CHR ''<'' \<notin> set (take (length rest - length (key_suffix dir_name)) rest)))"

text \<open>\<open>grep -o ... | sed ... | head -n 1\<close>: the first matching key, or the empty string.\<close>

definition latest_backup :: "string \<Rightarrow> string list \<Rightarrow> string" where
  "latest_backup dir_name keys =
     (case filter (key_matches dir_name) keys of [] \<Rightarrow> [] | k # _ \<Rightarrow> k)"

definition list_url :: "shell_world \<Rightarrow> string" where
  "list_url sw = sh_AWS_ENDPOINT_URL sw @ ''/'' @ sh_bucket sw @ ''/?prefix=backups/&delimiter=''"

definition restore_url :: "string \<Rightarrow> string \<Rightarrow> string" where
  "restore_url dir_name k = ''http://localhost:8083/'' @ dir_name @ ''?restore='' @ k"

text \<open>The part of \<open>restore_from_backup\<close> after the two waiting loops.\<close>

definition restore_data :: "shell_world \<Rightarrow> nat \<times> sh_effect list" where
  "restore_data sw =
     (let dir_name = ''data''
      in if data_dir_exists sw \<and> level_dat_exists sw then (0, [])
         else
           (case list_backups sw (list_url sw) of
              None \<Rightarrow> (1, [ListRequest (list_url sw)])
            | Some keys \<Rightarrow>
                (let LATEST_BACKUP = latest_backup dir_name keys
                 in if LATEST_BACKUP = [] then (0, [ListRequest (list_url sw)])
                    else (0, [ListRequest (list_url sw),
                              RestoreRequest (restore_url dir_name LATEST_BACKUP)]))))"

text \<open>\<open>restore_from_backup\<close>: its exit status and what it requested, in order.\<close>

definition restore_from_backup :: "shell_world \<Rightarrow> nat \<times> sh_effect list" where
  "restore_from_backup sw =
     (if sh_AWS_ACCESS_KEY_ID sw = [] \<or> sh_AWS_ENDPOINT_URL sw = [] \<or> sh_bucket sw = []
      then (0, [])
      else
        (case wait_file_server sw 1 of
           (False, es1) \<Rightarrow> (1, es1)
         | (True, es1) \<Rightarrow>
             (case wait_proxy sw 1 of
                (False, es2) \<Rightarrow> (1, es1 @ es2)
              | (True, es2) \<Rightarrow>
                  (case restore_data sw of (rc, es3) \<Rightarrow> (rc, es1 @ es2 @ es3)))))"

definition touches_store :: "sh_effect \<Rightarrow> bool" where
  "touches_store e = (case e of ListRequest _ \<Rightarrow> True | RestoreRequest _ \<Rightarrow> True | _ \<Rightarrow> False)"

section \<open>The plugin route of the control panel\<close>

text \<open>The container behind the route is remote: what each of its calls answers is the
  environment's. A call either answers or throws, and what is thrown is an \<open>Error\<close> with
  its message or some other value.\<close>

datatype thrown = ErrorObject string | OtherValue

type_synonym env_map = "(string \<times> string) list"

record 'p container =
  lookup_throws :: "thrown option"
  getStatus_reply :: "thrown + string"
  setPluginEnv_reply :: "thrown option"
  enablePlugin_reply :: "thrown option"
  disablePlugin_reply :: "thrown option"
  getPluginState_reply :: "thrown + 'p"

datatype rpc =
    GetStatus
  | SetPluginEnv string env_map
  | EnablePlugin string "env_map option"
  | DisablePlugin string
  | GetPluginState

record plugin_body =
  body_enabled :: "bool option"
  body_env :: "env_map option"

datatype 'p plugin_response = PluginFailure string | PluginSuccess 'p

text \<open>How a block of the handler ends: it falls through, it returns a response, or it
  throws.\<close>

datatype 'p outcome = Proceed | Return "'p plugin_response" | Throw thrown

text \<open>\<open>if (env !== undefined) { ... }\<close>.\<close>

definition env_block :: "'p container \<Rightarrow> string \<Rightarrow> plugin_body \<Rightarrow> 'p outcome \<times> rpc list" where
  "env_block c filename b =
     (case body_env b of
        None \<Rightarrow> (Proceed, [])
      | Some e \<Rightarrow>
          (case getStatus_reply c of
             Inl t \<Rightarrow> (Throw t, [GetStatus])
           | Inr state \<Rightarrow>
               if state \<noteq> ''stopped''
               then (Return (PluginFailure
                       ''Server must be stopped to change plugin environment variables''),
                     [GetStatus])
               else (case setPluginEnv_reply c of
                       Some t \<Rightarrow> (Throw t, [GetStatus, SetPluginEnv filename e])
                     | None \<Rightarrow> (Proceed, [GetStatus, SetPluginEnv filename e]))))"

text \<open>\<open>if (enabled !== undefined) { ... }\<close>.\<close>

definition enabled_block :: "'p container \<Rightarrow> string \<Rightarrow> plugin_body \<Rightarrow> 'p outcome \<times> rpc list" where
  "enabled_block c filename b =
     (case body_enabled b of
        None \<Rightarrow> (Proceed, [])
      | Some True \<Rightarrow>
          (case enablePlugin_reply c of
             Some t \<Rightarrow> (Throw t, [EnablePlugin filename (body_env b)])
           | None \<Rightarrow> (Proceed, [EnablePlugin filename (body_env b)]))
      | Some False \<Rightarrow>
          (case disablePlugin_reply c of
             Some t \<Rightarrow> (Throw t, [DisablePlugin filename])
           | None \<Rightarrow> (Proceed, [DisablePlugin filename])))"

text \<open>The \<open>catch\<close>: \<open>error instanceof Error ? error.message : "Failed to update plugin"\<close>.\<close>

definition catch_message :: "thrown \<Rightarrow> string" where
  "catch_message t = (case t of ErrorObject m \<Rightarrow> m | OtherValue \<Rightarrow> ''Failed to update plugin'')"

text \<open>How the handler leaves a block that did not fall through: with the response
  returned, or through the \<open>catch\<close>.\<close>

definition leave :: "'p outcome \<Rightarrow> 'p plugin_response" where
  "leave out =
     (case out of
        Return r \<Rightarrow> r
      | Throw t \<Rightarrow> PluginFailure (catch_message t)
      | Proceed \<Rightarrow> PluginFailure (catch_message OtherValue))"

text \<open>The last statements: \<open>getPluginState\<close> and the success response.\<close>

definition state_block :: "'p container \<Rightarrow> 'p plugin_response \<times> rpc list" where
  "state_block c =
     (case getPluginState_reply c of
        Inl t \<Rightarrow> (PluginFailure (catch_message t), [GetPluginState])
      | Inr plugins \<Rightarrow> (PluginSuccess plugins, [GetPluginState]))"

text \<open>The handler of \<open>POST /plugins/:filename\<close>: its response and the calls it made to the
  container, in order. A block that falls through is followed by the next one.\<close>

definition post_plugin ::
  "'p container \<Rightarrow> string \<Rightarrow> plugin_body \<Rightarrow> 'p plugin_response \<times> rpc list" where
  "post_plugin c filename b =
     (case lookup_throws c of
        Some t \<Rightarrow> (PluginFailure (catch_message t), [])
      | None \<Rightarrow>
          (case env_block c filename b of
             (Proceed, cs1) \<Rightarrow>
               (case enabled_block c filename b of
                  (Proceed, cs2) \<Rightarrow>
                    (case state_block c of (r, cs3) \<Rightarrow> (r, cs1 @ cs2 @ cs3))
                | (out, cs2) \<Rightarrow> (leave out, cs1 @ cs2))
           | (out, cs1) \<Rightarrow> (leave out, cs1)))"

text \<open>The calls that change a plugin's environment variables.\<close>

definition sets_env :: "rpc \<Rightarrow> bool" where
  "sets_env r =
     (case r of SetPluginEnv f e \<Rightarrow> True | EnablePlugin f (Some e) \<Rightarrow> True | _ \<Rightarrow> False)"

section \<open>Notions for the statements and their proofs\<close>

text \<open>From one state of a run to a later one, no extraction was added.\<close>

definition no_extraction_added :: "FileServer \<Rightarrow> FileServer \<Rightarrow> bool" where
  "no_extraction_added s s' =
     (filter is_extraction (effects s') = filter is_extraction (effects s))"

text \<open>A part none of whose attempts gets a body.\<close>

definition part_unreachable :: "world \<Rightarrow> string \<Rightarrow> download_task \<Rightarrow> bool" where
  "part_unreachable w key t =
     (\<forall>a. 1 \<le> a \<and> a \<le> MAX_RETRIES \<longrightarrow>
        (\<forall>d. get_range w key (range_start t) (range_end t) a \<noteq> RangeBody d))"

text \<open>The lines of the job log, and a step of the file server that writes none of them
  and drops no job from the table.\<close>

definition is_job_log :: "effect \<Rightarrow> bool" where
  "is_job_log e = (case e of LogJobCreated i d \<Rightarrow> True | LogJobExecution i d \<Rightarrow> True | _ \<Rightarrow> False)"

definition quiet_step :: "FileServer \<Rightarrow> FileServer \<Rightarrow> bool" where
  "quiet_step s s' =
     (filter is_job_log (effects s') = filter is_job_log (effects s) \<and>
      dom (backupJobs s) \<subseteq> dom (backupJobs s'))"

text \<open>The job table and the job log agree: a job is created and executed at most once
  for an id, and not at all for an id that is not in the table.\<close>

definition jobs_once :: "FileServer \<Rightarrow> bool" where
  "jobs_once s =
     (\<forall>i. created_count i (effects s) \<le> 1 \<and> executed_count i (effects s) \<le> 1 \<and>
          (backupJobs s i = None \<longrightarrow>
             created_count i (effects s) = 0 \<and> executed_count i (effects s) = 0))"

text \<open>The decimal digits of \<open>n\<close> in a field of \<open>w\<close> characters, zeros in front.\<close>

fun fixed_digits :: "nat \<Rightarrow> nat \<Rightarrow> string" where
  "fixed_digits 0 n = []"
| "fixed_digits (Suc w) n = fixed_digits w (n div 10) @ [digit_char (n mod 10)]"

text \<open>The key is the prefix, the reverse part and a rest; within the range of the claim
  the reverse part is the fixed-width decimal of the reverse epoch.\<close>

definition reverse_part :: "Date \<Rightarrow> string" where
  "reverse_part at =
     padStart (js_String (MAX_EPOCH_SECONDS - getTime at div 1000)) REV_SECONDS_WIDTH CHR ''0''"

text \<open>A store that answers the first attempt of every ranged read of \<open>key\<close> with the bytes
  of \<open>obj\<close> in that range (both ends included, cut at the end of the object), and the bytes
  of \<open>obj\<close> a task asks for.\<close>

definition serves :: "world \<Rightarrow> string \<Rightarrow> bytes \<Rightarrow> bool" where
  "serves w key obj = (\<forall>a b. get_range w key a b 1 = RangeBody (take (b + 1 - a) (drop a obj)))"

definition part_bytes :: "bytes \<Rightarrow> download_task \<Rightarrow> bytes" where
  "part_bytes obj t = take (range_end t + 1 - range_start t) (drop (range_start t) obj)"

text \<open>The files after the part of a task has been written, the store serving \<open>obj\<close>.\<close>

definition with_part :: "bytes \<Rightarrow> download_task \<Rightarrow> (string \<rightharpoonup> bytes) \<Rightarrow> (string \<rightharpoonup> bytes)" where
  "with_part obj t f = f(task_tempFile t \<mapsto> part_bytes obj t)"

section \<open>Concrete runs\<close>

text \<open>Inputs at which the theorems below are instantiated.\<close>

definition running_container :: "unit container" where
  "running_container =
     \<lparr>lookup_throws = None, getStatus_reply = Inr ''running'', setPluginEnv_reply = None,
      enablePlugin_reply = None, disablePlugin_reply = None, getPluginState_reply = Inr ()\<rparr>"

definition env_update :: plugin_body where
  "env_update = \<lparr>body_enabled = Some True, body_env = Some [(''TOKEN'', ''abc'')]\<rparr>"

definition no_credentials :: process_env where
  "no_credentials =
     \<lparr>AWS_ACCESS_KEY_ID = None, AWS_SECRET_ACCESS_KEY = None, AWS_ENDPOINT_URL = None,
      DATA_BUCKET_NAME = None, DYNMAP_BUCKET = None\<rparr>"

definition credentials :: process_env where
  "credentials =
     \<lparr>AWS_ACCESS_KEY_ID = Some ''id'', AWS_SECRET_ACCESS_KEY = Some ''secret'',
      AWS_ENDPOINT_URL = Some ''http://r2'', DATA_BUCKET_NAME = Some ''bucket'',
      DYNMAP_BUCKET = None\<rparr>"

text \<open>A store without objects, where the archiver fails with exit code 2.\<close>

definition failing_world :: world where
  "failing_world =
     \<lparr>head_object = (\<lambda>key. HeadNotOk),
      get_range = (\<lambda>key a b attempt. RangeRejected),
      get_object = (\<lambda>key. None),
      put_object = (\<lambda>key content. True),
      tar_create = (\<lambda>parentDir dirName. (2, None)),
      tar_extract = (\<lambda>archive parentDir. 0)\<rparr>"

text \<open>A background job for \<open>/data\<close> that has spawned its archiver.\<close>

definition nightly_job :: job where
  "nightly_job =
     \<lparr>job_id = ''nightly'', job_directory = ''/data'', job_status = Running, startedAt = 0,
      completedAt = None, job_result = None, job_error = None\<rparr>"

definition nightly_waiting :: awaiting_tar where
  "nightly_waiting =
     \<lparr>waiting_job = nightly_job, waiting_key = generateBackupKey ''data'' 0,
      waiting_tempFile = ''/tmp/backup_1970010100_nightly.tar.gz'', waiting_parentDir = ''/'',
      waiting_dirName = ''data''\<rparr>"

text \<open>An object of 100 MB, and a store that reports its size to the HEAD request but takes
  no notice of the range of a read: every ranged read comes back with the whole object.
  Extraction succeeds.\<close>

definition whole_object :: bytes where
  "whole_object = replicate 104857600 CHR ''a''"

definition rangeless_world :: world where
  "rangeless_world =
     \<lparr>head_object = (\<lambda>key. HeadOk (Some 104857600)),
      get_range = (\<lambda>key a b attempt. RangeBody whole_object),
      get_object = (\<lambda>key. Some whole_object),
      put_object = (\<lambda>key content. True),
      tar_create = (\<lambda>parentDir dirName. (0, None)),
      tar_extract = (\<lambda>archive parentDir. 0)\<rparr>"

text \<open>A store whose HEAD request reports 100 MB and whose ranged reads are all rejected.\<close>

definition unreachable_world :: world where
  "unreachable_world =
     \<lparr>head_object = (\<lambda>key. HeadOk (Some 104857600)),
      get_range = (\<lambda>key a b attempt. RangeRejected),
      get_object = (\<lambda>key. None),
      put_object = (\<lambda>key content. True),
      tar_create = (\<lambda>parentDir dirName. (0, None)),
      tar_extract = (\<lambda>archive parentDir. 0)\<rparr>"

text \<open>Start-ups with the credentials set, where the file server and the proxy answer at
  the first poll: one with a world in the data directory, one without and with three
  backups listed.\<close>

definition populated_start :: shell_world where
  "populated_start =
     \<lparr>sh_AWS_ACCESS_KEY_ID = ''id'', sh_AWS_ENDPOINT_URL = ''http://r2'',
      sh_DATA_BUCKET_NAME = ''bucket'', sh_DYNMAP_BUCKET = [],
      file_server_ready = (\<lambda>i. True), proxy_status = (\<lambda>i. ''CONNECTED''),
      data_dir_exists = True, level_dat_exists = True,
      list_backups = (\<lambda>url. Some [''backups/3129200200_2025110309_data.tar.gz''])\<rparr>"


text \<open>A file server whose job table holds the job \<open>nightly\<close>.\<close>

definition nightly_table :: FileServer where
  "nightly_table = initial\<lparr>backupJobs := [''nightly'' \<mapsto> nightly_job]\<rparr>"

text \<open>An object of one chunk and one byte, and a store that serves it.\<close>

definition big_object :: bytes where
  "big_object = replicate 52428801 CHR ''a''"

definition big_world :: world where
  "big_world =
     \<lparr>head_object = (\<lambda>key. HeadOk (Some 52428801)),
      get_range = (\<lambda>key a b attempt. RangeBody (take (b + 1 - a) (drop a big_object))),
      get_object = (\<lambda>key. Some big_object),
      put_object = (\<lambda>key content. True),
      tar_create = (\<lambda>parentDir dirName. (0, None)),
      tar_extract = (\<lambda>archive parentDir. 0)\<rparr>"

definition stopped_container :: "unit container" where
  "stopped_container =
     \<lparr>lookup_throws = None, getStatus_reply = Inr ''stopped'', setPluginEnv_reply = None,
      enablePlugin_reply = None, disablePlugin_reply = None, getPluginState_reply = Inr ()\<rparr>"

section \<open>Evaluation and effect lemmas\<close>


lemma parent_of_data: "parent_of ''/data'' = ''/''"
  by (simp add: parent_of_def lastIndexOf_def substring0_def)

lemma dirName_of_data: "dirName_of ''/data'' = ''data''"
  by (simp add: dirName_of_def)

lemma normalize_directory_data: "normalize_directory ''/data'' = ''/data''"
  by (simp add: normalize_directory_def startsWith_def)

lemma is_upload_simps:
  "is_upload (S3Write k c)" "\<not> is_upload (TarCreate t p d)" "\<not> is_upload (FsWrite f c)"
  "\<not> is_upload (FsUnlink f)" "\<not> is_upload (LogJobExecution i d)" "\<not> is_upload (LogJobCreated i d)"
  by (simp_all add: is_upload_def)

lemma effects_run_tar_create:
  "effects (snd (run_tar_create w t p d s)) = effects s"
  by (simp add: run_tar_create_def split: prod.splits option.splits)

lemma fst_run_tar_create: "fst (run_tar_create w t p d s) = fst (tar_create w p d)"
  by (simp add: run_tar_create_def split: prod.splits option.splits)

lemma digit_char_num:
  "digit_char 0 = CHR ''0''" "digit_char 1 = CHR ''1''" "digit_char (Suc 0) = CHR ''1''"
  "digit_char 2 = CHR ''2''" "digit_char 3 = CHR ''3''" "digit_char 4 = CHR ''4''"
  "digit_char 5 = CHR ''5''" "digit_char 6 = CHR ''6''" "digit_char 7 = CHR ''7''"
  "digit_char 8 = CHR ''8''" "digit_char 9 = CHR ''9''"
  by (simp_all add: digit_char_def char_of_eq_iff)

section \<open>Backup keys: fixed-width decimals and their order\<close>


lemma digit_char_less: "d < e \<Longrightarrow> e < 10 \<Longrightarrow> digit_char d < digit_char e"
  by (simp add: digit_char_def less_char_def)

lemma digit_char_0: "digit_char 0 = CHR ''0''"
  by (simp add: digit_char_def char_of_eq_iff)

lemma length_fixed_digits: "length (fixed_digits w n) = w"
  by (induction w arbitrary: n) simp_all

lemma fixed_digits_0: "fixed_digits w 0 = replicate w CHR ''0''"
  by (induction w) (simp_all add: digit_char_0 replicate_append_same)

lemma length_string_of_nat: "n < 10 ^ w \<Longrightarrow> 0 < w \<Longrightarrow> length (string_of_nat n) \<le> w"
proof (induction w arbitrary: n)
  case 0
  then show ?case by simp
next
  case (Suc w)
  show ?case
  proof (cases "n < 10")
    case True
    then show ?thesis by (simp add: string_of_nat.simps [of n])
  next
    case False
    then have w: "0 < w" using Suc.prems by (cases w) auto
    have "n div 10 < 10 ^ w" using Suc.prems by (simp add: less_mult_imp_div_less mult.commute)
    from Suc.IH [OF this w] False show ?thesis by (simp add: string_of_nat.simps [of n])
  qed
qed

lemma padStart_fixed_digits:
  "n < 10 ^ w \<Longrightarrow> 0 < w \<Longrightarrow> padStart (string_of_nat n) w CHR ''0'' = fixed_digits w n"
proof (induction w arbitrary: n)
  case 0
  then show ?case by simp
next
  case (Suc w)
  show ?case
  proof (cases "n < 10")
    case True
    then show ?thesis
      by (simp add: string_of_nat.simps [of n] padStart_def fixed_digits_0)
  next
    case False
    then have w: "0 < w" using Suc.prems by (cases w) auto
    have d: "n div 10 < 10 ^ w" using Suc.prems by (simp add: less_mult_imp_div_less mult.commute)
    have l: "length (string_of_nat (n div 10)) \<le> w" by (rule length_string_of_nat [OF d w])
    have "padStart (string_of_nat n) (Suc w) CHR ''0'' =
            padStart (string_of_nat (n div 10)) w CHR ''0'' @ [digit_char (n mod 10)]"
      using False l by (simp add: string_of_nat.simps [of n] padStart_def)
    with Suc.IH [OF d w] show ?thesis by simp
  qed
qed

lemma less_append_same_length:
  fixes xs ys :: string
  shows "xs < ys \<Longrightarrow> length xs = length ys \<Longrightarrow> xs @ u < ys @ v"
  by (simp add: list_less_def lexord_sufI)

lemma less_append_left:
  fixes u v :: string
  shows "u < v \<Longrightarrow> xs @ u < xs @ v"
  by (simp add: list_less_def lexord_append_leftI)

lemma fixed_digits_mono: "m < n \<Longrightarrow> n < 10 ^ w \<Longrightarrow> fixed_digits w m < fixed_digits w n"
proof (induction w arbitrary: m n)
  case 0
  then show ?case by simp
next
  case (Suc w)
  have d: "n div 10 < 10 ^ w" using Suc.prems by (simp add: less_mult_imp_div_less mult.commute)
  show ?case
  proof (cases "m div 10 < n div 10")
    case True
    from Suc.IH [OF True d] show ?thesis
      by (simp add: less_append_same_length length_fixed_digits)
  next
    case False
    with Suc.prems(1) have e: "m div 10 = n div 10" by (simp add: div_le_mono order.order_iff_strict)
    with Suc.prems(1) have "m mod 10 < n mod 10"
      by (metis div_mult_mod_eq nat_add_left_cancel_less)
    then have "[digit_char (m mod 10)] < [digit_char (n mod 10)]"
      by (simp add: digit_char_less list_less_def)
    with e show ?thesis by (simp add: less_append_left)
  qed
qed


lemma MAX_EPOCH_SECONDS_value: "MAX_EPOCH_SECONDS = 4891363200"
  by (simp add: MAX_EPOCH_SECONDS_def getTime_def date_2125_01_01_def msPerDay_def)

lemma REV_SECONDS_WIDTH_value: "REV_SECONDS_WIDTH = 10"
  by (simp add: REV_SECONDS_WIDTH_def MAX_EPOCH_SECONDS_value js_String_def string_of_nat.simps
      digit_char_num)

lemma generateBackupKey_parts:
  "generateBackupKey d at =
     ''backups/'' @ reverse_part at @ ''_'' @ formatUTCDateYYYYMMDDHH at @ ''_'' @ d @ ''.tar.gz''"
  by (simp add: generateBackupKey_def reverse_part_def Let_def)

lemma reverse_part_fixed:
  assumes "0 \<le> getTime at div 1000" and "getTime at div 1000 \<le> MAX_EPOCH_SECONDS"
  shows "reverse_part at = fixed_digits 10 (nat (MAX_EPOCH_SECONDS - getTime at div 1000))"
proof -
  let ?r = "MAX_EPOCH_SECONDS - getTime at div 1000"
  have r: "0 \<le> ?r" "?r \<le> 4891363200" using assms by (simp_all add: MAX_EPOCH_SECONDS_value)
  then have "nat ?r < 10 ^ 10" by simp
  from padStart_fixed_digits [OF this] r(1) show ?thesis
    by (simp add: reverse_part_def REV_SECONDS_WIDTH_value js_String_def)
qed

lemma generateBackupKey_less:
  assumes "0 \<le> getTime t1" and "getTime t1 div 1000 < getTime t2 div 1000"
    and "getTime t2 div 1000 \<le> MAX_EPOCH_SECONDS"
  shows "generateBackupKey d2 t2 < generateBackupKey d1 t1"
proof -
  let ?r1 = "nat (MAX_EPOCH_SECONDS - getTime t1 div 1000)"
  let ?r2 = "nat (MAX_EPOCH_SECONDS - getTime t2 div 1000)"
  have s1: "0 \<le> getTime t1 div 1000" using assms(1) by simp
  have f1: "reverse_part t1 = fixed_digits 10 ?r1"
    using reverse_part_fixed [of t1] s1 assms(2,3) by simp
  have f2: "reverse_part t2 = fixed_digits 10 ?r2"
    using reverse_part_fixed [of t2] s1 assms(2,3) by simp
  have lt: "?r2 < ?r1" using assms(2,3) by simp
  have "?r1 < 10 ^ 10" using s1 by (simp add: MAX_EPOCH_SECONDS_value)
  from fixed_digits_mono [OF lt this] have "reverse_part t2 < reverse_part t1"
    by (simp add: f1 f2)
  moreover have "length (reverse_part t2) = length (reverse_part t1)"
    by (simp add: f1 f2 length_fixed_digits)
  ultimately have "reverse_part t2 @ u < reverse_part t1 @ v" for u v
    by (rule less_append_same_length)
  then have "''backups/'' @ reverse_part t2 @ u < ''backups/'' @ reverse_part t1 @ v" for u v
    by (rule less_append_left)
  then show ?thesis unfolding generateBackupKey_parts .
qed

section \<open>Backup keys sort newest first\<close>

text \<open>
  C2. For two times between the epoch and \<open>MAX_EPOCH_SECONDS\<close> that differ in whole
  seconds, the key of the later one is strictly smaller, in the lexicographic order of the
  character codes, than the key of the earlier one, for every directory name. Hence a list
  of such times whose keys are in ascending order is in descending order of its seconds:
  an ascending listing of the keys is newest first.
\<close>

theorem backup_keys_newest_first:
  "(0 \<le> getTime t1 \<and> getTime t1 div 1000 < getTime t2 div 1000 \<and>
    getTime t2 div 1000 \<le> MAX_EPOCH_SECONDS \<longrightarrow>
      generateBackupKey d t2 < generateBackupKey d t1) \<and>
   ((\<forall>t \<in> set ts. 0 \<le> getTime t \<and> getTime t div 1000 \<le> MAX_EPOCH_SECONDS) \<and>
    sorted (map (generateBackupKey d) ts) \<longrightarrow>
      sorted_wrt (\<lambda>a b. getTime b div 1000 \<le> getTime a div 1000) ts)"
proof (intro conjI impI)
  assume "0 \<le> getTime t1 \<and> getTime t1 div 1000 < getTime t2 div 1000 \<and>
    getTime t2 div 1000 \<le> MAX_EPOCH_SECONDS"
  then show "generateBackupKey d t2 < generateBackupKey d t1"
    using generateBackupKey_less [of t1 t2 d d] by simp
next
  assume a: "(\<forall>t \<in> set ts. 0 \<le> getTime t \<and> getTime t div 1000 \<le> MAX_EPOCH_SECONDS) \<and>
    sorted (map (generateBackupKey d) ts)"
  then have s: "sorted_wrt (\<lambda>a b. generateBackupKey d a \<le> generateBackupKey d b) ts"
    by (simp add: sorted_map)
  have "getTime b div 1000 \<le> getTime a div 1000"
    if "a \<in> set ts" "b \<in> set ts" "generateBackupKey d a \<le> generateBackupKey d b" for a b
  proof (rule ccontr)
    assume "\<not> getTime b div 1000 \<le> getTime a div 1000"
    then have "getTime a div 1000 < getTime b div 1000" by simp
    with a that(1,2) have "generateBackupKey d b < generateBackupKey d a"
      using generateBackupKey_less [of a b d d] by simp
    with that(3) show False by simp
  qed
  with s show "sorted_wrt (\<lambda>a b. getTime b div 1000 \<le> getTime a div 1000) ts"
    by (rule_tac sorted_wrt_mono_rel) auto
qed


lemmas date_defs = getUTCFullYear_def getUTCMonth_def getUTCDate_def getUTCHours_def
  month_index_def day_of_year_def year_of_era_def era_of_def day_of_era_def day_of_def msPerDay_def

lemma key_before_midnight:
  "generateBackupKey ''data'' 1709251199000 = ''backups/3182112001_2024022923_data.tar.gz''"
  apply (simp add: generateBackupKey_def REV_SECONDS_WIDTH_value Let_def)
  apply (simp add: formatUTCDateYYYYMMDDHH_def date_defs Let_def)
  apply (simp add: MAX_EPOCH_SECONDS_value getTime_def)
  apply (simp add: padStart_def js_String_def string_of_nat.simps digit_char_num)
  done

lemma key_at_midnight:
  "generateBackupKey ''data'' 1709251200000 = ''backups/3182112000_2024030100_data.tar.gz''"
  apply (simp add: generateBackupKey_def REV_SECONDS_WIDTH_value Let_def)
  apply (simp add: formatUTCDateYYYYMMDDHH_def date_defs Let_def)
  apply (simp add: MAX_EPOCH_SECONDS_value getTime_def)
  apply (simp add: padStart_def js_String_def string_of_nat.simps digit_char_num)
  done

theorem backup_keys_newest_first_witness:
  "0 \<le> getTime 1709251199000 \<and>
   getTime 1709251199000 div 1000 < getTime 1709251200000 div 1000 \<and>
   getTime 1709251200000 div 1000 \<le> MAX_EPOCH_SECONDS \<and>
   generateBackupKey ''data'' 1709251199000 = ''backups/3182112001_2024022923_data.tar.gz'' \<and>
   generateBackupKey ''data'' 1709251200000 = ''backups/3182112000_2024030100_data.tar.gz'' \<and>
   generateBackupKey ''data'' 1709251200000 < generateBackupKey ''data'' 1709251199000 \<and>
   sorted (map (generateBackupKey ''data'') [1709251200000, 1709251199000]) \<and>
   sorted_wrt (\<lambda>a b. getTime b div 1000 \<le> getTime a div 1000) [1709251200000, 1709251199000]"
proof -
  have h: "0 \<le> getTime 1709251199000"
    "getTime 1709251199000 div 1000 < getTime 1709251200000 div 1000"
    "getTime 1709251200000 div 1000 \<le> MAX_EPOCH_SECONDS"
    by (simp_all add: getTime_def MAX_EPOCH_SECONDS_value)
  have r: "\<forall>t \<in> set [1709251200000, 1709251199000].
             0 \<le> getTime t \<and> getTime t div 1000 \<le> MAX_EPOCH_SECONDS"
    by (simp add: getTime_def MAX_EPOCH_SECONDS_value)
  note k = backup_keys_newest_first [of 1709251199000 1709251200000 "''data''"
      "[1709251200000, 1709251199000]"]
  from k h have l: "generateBackupKey ''data'' 1709251200000 < generateBackupKey ''data'' 1709251199000"
    by blast
  then have s: "sorted (map (generateBackupKey ''data'') [1709251200000, 1709251199000])"
    by simp
  from k r s
  have w: "sorted_wrt (\<lambda>a b. getTime b div 1000 \<le> getTime a div 1000) [1709251200000, 1709251199000]"
    by blast
  show ?thesis by (intro conjI h key_before_midnight key_at_midnight l s w)
qed

section \<open>Ranged downloads: retries, batches and their effects\<close>


lemma is_extraction_simps:
  "is_extraction (TarExtract t p)" "\<not> is_extraction (HttpHead u)"
  "\<not> is_extraction (HttpGetRange u a b)" "\<not> is_extraction (S3FileRead k)"
  "\<not> is_extraction (FsWrite f c)" "\<not> is_extraction (FsUnlink f)"
  "\<not> is_extraction (WarnPartSize n x y)" "\<not> is_extraction (WarnSizeMismatch x y)"
  "\<not> is_extraction (Mkdir f)"
  by (simp_all add: is_extraction_def)

lemma nea_refl: "no_extraction_added s s"
  by (simp add: no_extraction_added_def)

lemma nea_trans: "no_extraction_added s s1 \<Longrightarrow> no_extraction_added s1 s2 \<Longrightarrow> no_extraction_added s s2"
  by (simp add: no_extraction_added_def)

lemma nea_emit: "\<not> is_extraction e \<Longrightarrow> no_extraction_added s (emit e s)"
  by (simp add: no_extraction_added_def emit_def)

lemma nea_bun_write: "no_extraction_added s (bun_write f c s)"
  by (simp add: no_extraction_added_def bun_write_def emit_def is_extraction_simps)

lemma nea_unlink: "no_extraction_added s (unlink f s)"
  by (simp add: no_extraction_added_def unlink_def emit_def is_extraction_simps)

lemma nea_attempts:
  "no_extraction_added s (snd (downloadRange_attempts env w key st en pn tp attempt s))"
proof (induction env w key st en pn tp attempt s rule: downloadRange_attempts.induct)
  case (1 env w key st en pn tp attempt s)
  let ?s1 = "emit (HttpGetRange (object_url env key) st en) s"
  have s1: "no_extraction_added s ?s1" by (simp add: nea_emit is_extraction_simps)
  show ?case
  proof (cases "attempt \<le> MAX_RETRIES")
    case False
    then show ?thesis by (simp add: downloadRange_attempts.simps [of env w key st en pn tp attempt s] nea_refl)
  next
    case True
    show ?thesis
    proof (cases "get_range w key st en attempt")
      case (RangeBody d)
      with True show ?thesis
        by (simp add: downloadRange_attempts.simps [of env w key st en pn tp attempt s] Let_def
            no_extraction_added_def emit_def is_extraction_simps)
    next
      case RangeRejected
      with True "1.IH"(1) [OF True refl RangeRejected] s1 show ?thesis
        by (auto simp: downloadRange_attempts.simps [of env w key st en pn tp attempt s] Let_def
            intro: nea_trans)
    next
      case RangeNotOk
      with True "1.IH"(2) [OF True refl RangeNotOk] s1 show ?thesis
        by (auto simp: downloadRange_attempts.simps [of env w key st en pn tp attempt s] Let_def
            intro: nea_trans)
    qed
  qed
qed

lemma attempts_result:
  "(\<exists>d. fst (downloadRange_attempts env w key st en pn tp attempt s) = Inr d) \<or>
   fst (downloadRange_attempts env w key st en pn tp attempt s) = Inl (PartExhausted pn tp)"
proof (induction env w key st en pn tp attempt s rule: downloadRange_attempts.induct)
  case (1 env w key st en pn tp attempt s)
  show ?case
  proof (cases "attempt \<le> MAX_RETRIES")
    case False
    then show ?thesis by (simp add: downloadRange_attempts.simps [of env w key st en pn tp attempt s])
  next
    case True
    show ?thesis
    proof (cases "get_range w key st en attempt")
      case (RangeBody d)
      with True show ?thesis
        by (simp add: downloadRange_attempts.simps [of env w key st en pn tp attempt s] Let_def)
    next
      case RangeRejected
      with True "1.IH"(1) [OF True refl RangeRejected] show ?thesis
        by (simp add: downloadRange_attempts.simps [of env w key st en pn tp attempt s] Let_def)
    next
      case RangeNotOk
      with True "1.IH"(2) [OF True refl RangeNotOk] show ?thesis
        by (simp add: downloadRange_attempts.simps [of env w key st en pn tp attempt s] Let_def)
    qed
  qed
qed

lemma attempts_exhausted:
  assumes "\<forall>a. attempt \<le> a \<and> a \<le> MAX_RETRIES \<longrightarrow> (\<forall>d. get_range w key st en a \<noteq> RangeBody d)"
  shows "fst (downloadRange_attempts env w key st en pn tp attempt s) = Inl (PartExhausted pn tp)"
  using assms
proof (induction env w key st en pn tp attempt s rule: downloadRange_attempts.induct)
  case (1 env w key st en pn tp attempt s)
  show ?case
  proof (cases "attempt \<le> MAX_RETRIES")
    case False
    then show ?thesis by (simp add: downloadRange_attempts.simps [of env w key st en pn tp attempt s])
  next
    case True
    have later: "\<forall>a. attempt + 1 \<le> a \<and> a \<le> MAX_RETRIES \<longrightarrow> (\<forall>d. get_range w key st en a \<noteq> RangeBody d)"
      using "1.prems" by auto
    show ?thesis
    proof (cases "get_range w key st en attempt")
      case (RangeBody d)
      with True "1.prems" show ?thesis by auto
    next
      case RangeRejected
      with True "1.IH"(1) [OF True refl RangeRejected later] show ?thesis
        by (simp add: downloadRange_attempts.simps [of env w key st en pn tp attempt s] Let_def)
    next
      case RangeNotOk
      with True "1.IH"(2) [OF True refl RangeNotOk later] show ?thesis
        by (simp add: downloadRange_attempts.simps [of env w key st en pn tp attempt s] Let_def)
    qed
  qed
qed


lemma nea_downloadPart: "no_extraction_added s (snd (downloadPart env w key n t s))"
proof -
  obtain r s1 where d: "downloadRangeWithRetry env w key (range_start t) (range_end t) (partNumber t) n s = (r, s1)"
    by (cases "downloadRangeWithRetry env w key (range_start t) (range_end t) (partNumber t) n s")
  have a: "no_extraction_added s s1"
    using nea_attempts [of s env w key "range_start t" "range_end t" "partNumber t" n 1] d
    by (simp add: downloadRangeWithRetry_def)
  show ?thesis
    using d a by (cases r) (auto simp: downloadPart_def intro: nea_trans nea_bun_write)
qed

lemma downloadPart_result:
  "fst (downloadPart env w key n t s) = None \<or>
   fst (downloadPart env w key n t s) = Some (PartExhausted (partNumber t) n)"
  using attempts_result [of env w key "range_start t" "range_end t" "partNumber t" n 1 s]
  by (auto simp: downloadPart_def downloadRangeWithRetry_def split: prod.splits sum.splits)

lemma downloadPart_unreachable:
  "part_unreachable w key t \<Longrightarrow>
   fst (downloadPart env w key n t s) = Some (PartExhausted (partNumber t) n)"
  using attempts_exhausted [of 1 w key "range_start t" "range_end t" env "partNumber t" n s]
  by (auto simp: part_unreachable_def downloadPart_def downloadRangeWithRetry_def
      split: prod.splits sum.splits)

lemma nea_download_batch: "no_extraction_added s (snd (download_batch env w key n ts s))"
proof (induction ts arbitrary: s)
  case Nil
  show ?case by (simp add: nea_refl)
next
  case (Cons t ts)
  obtain r s1 where p: "downloadPart env w key n t s = (r, s1)"
    by (cases "downloadPart env w key n t s")
  obtain rs s2 where b: "download_batch env w key n ts s1 = (rs, s2)"
    by (cases "download_batch env w key n ts s1")
  have "no_extraction_added s s1" using nea_downloadPart [of s env w key n t] p by simp
  moreover have "no_extraction_added s1 s2" using Cons.IH [of s1] b by simp
  ultimately show ?case using p b by (auto intro: nea_trans)
qed

lemma download_batch_result:
  "fst (download_batch env w key n ts s) = None \<or>
   (\<exists>k. fst (download_batch env w key n ts s) = Some (PartExhausted k n))"
proof (induction ts arbitrary: s)
  case Nil
  show ?case by simp
next
  case (Cons t ts)
  obtain r s1 where p: "downloadPart env w key n t s = (r, s1)"
    by (cases "downloadPart env w key n t s")
  obtain rs s2 where b: "download_batch env w key n ts s1 = (rs, s2)"
    by (cases "download_batch env w key n ts s1")
  from downloadPart_result [of env w key n t s] p
  have r: "r = None \<or> r = Some (PartExhausted (partNumber t) n)" by simp
  from Cons.IH [of s1] b have rs: "rs = None \<or> (\<exists>k. rs = Some (PartExhausted k n))" by simp
  from r rs p b show ?case by auto
qed

lemma download_batch_unreachable:
  "t \<in> set ts \<Longrightarrow> part_unreachable w key t \<Longrightarrow> fst (download_batch env w key n ts s) \<noteq> None"
proof (induction ts arbitrary: s)
  case Nil
  then show ?case by simp
next
  case (Cons x ts)
  obtain r s1 where p: "downloadPart env w key n x s = (r, s1)"
    by (cases "downloadPart env w key n x s")
  obtain rs s2 where b: "download_batch env w key n ts s1 = (rs, s2)"
    by (cases "download_batch env w key n ts s1")
  show ?case
  proof (cases "x = t")
    case True
    with Cons.prems(2) downloadPart_unreachable [of w key t env n s] p have "r \<noteq> None" by auto
    with p b show ?thesis by auto
  next
    case False
    with Cons.prems have "t \<in> set ts" by simp
    from Cons.IH [OF this Cons.prems(2), of s1] b have "rs \<noteq> None" by simp
    with p b show ?thesis by (cases r) auto
  qed
qed

lemma nea_download_batches:
  "no_extraction_added s (snd (download_batches env w key n tasks i s))"
proof (induction env w key n tasks i s rule: download_batches.induct)
  case (1 env w key n tasks i s)
  show ?case
  proof (cases "i < length tasks")
    case False
    then show ?thesis by (simp add: download_batches.simps [of env w key n tasks i s] nea_refl)
  next
    case True
    obtain r s1 where b: "download_batch env w key n (slice tasks i (i + MAX_CONCURRENT_DOWNLOADS)) s = (r, s1)"
      by (cases "download_batch env w key n (slice tasks i (i + MAX_CONCURRENT_DOWNLOADS)) s")
    have a: "no_extraction_added s s1"
      using nea_download_batch [of s env w key n "slice tasks i (i + MAX_CONCURRENT_DOWNLOADS)"] b by simp
    show ?thesis
    proof (cases r)
      case None
      from "1.IH" [OF True b [symmetric] None] a True b None show ?thesis
        by (auto simp: download_batches.simps [of env w key n tasks i s] intro: nea_trans)
    next
      case (Some e)
      with True b a show ?thesis
        by (simp add: download_batches.simps [of env w key n tasks i s])
    qed
  qed
qed

lemma download_batches_result:
  "fst (download_batches env w key n tasks i s) = None \<or>
   (\<exists>k. fst (download_batches env w key n tasks i s) = Some (PartExhausted k n))"
proof (induction env w key n tasks i s rule: download_batches.induct)
  case (1 env w key n tasks i s)
  show ?case
  proof (cases "i < length tasks")
    case False
    then show ?thesis by (simp add: download_batches.simps [of env w key n tasks i s])
  next
    case True
    obtain r s1 where b: "download_batch env w key n (slice tasks i (i + MAX_CONCURRENT_DOWNLOADS)) s = (r, s1)"
      by (cases "download_batch env w key n (slice tasks i (i + MAX_CONCURRENT_DOWNLOADS)) s")
    show ?thesis
    proof (cases r)
      case None
      from "1.IH" [OF True b [symmetric] None] True b None show ?thesis
        by (simp add: download_batches.simps [of env w key n tasks i s])
    next
      case (Some e)
      with download_batch_result [of env w key n "slice tasks i (i + MAX_CONCURRENT_DOWNLOADS)" s] b
      have "\<exists>k. e = PartExhausted k n" by simp
      with Some True b show ?thesis
        by (simp add: download_batches.simps [of env w key n tasks i s])
    qed
  qed
qed

lemma download_batches_unreachable:
  "i \<le> j \<Longrightarrow> j < length tasks \<Longrightarrow> part_unreachable w key (tasks ! j) \<Longrightarrow>
   fst (download_batches env w key n tasks i s) \<noteq> None"
proof (induction env w key n tasks i s rule: download_batches.induct)
  case (1 env w key n tasks i s)
  from "1.prems" have True: "i < length tasks" by simp
  obtain r s1 where b: "download_batch env w key n (slice tasks i (i + MAX_CONCURRENT_DOWNLOADS)) s = (r, s1)"
    by (cases "download_batch env w key n (slice tasks i (i + MAX_CONCURRENT_DOWNLOADS)) s")
  show ?case
  proof (cases r)
    case (Some e)
    with True b show ?thesis by (simp add: download_batches.simps [of env w key n tasks i s])
  next
    case None
    have "\<not> j < i + MAX_CONCURRENT_DOWNLOADS"
    proof
      assume lt: "j < i + MAX_CONCURRENT_DOWNLOADS"
      have "tasks ! j \<in> set (slice tasks i (i + MAX_CONCURRENT_DOWNLOADS))"
      proof -
        have "slice tasks i (i + MAX_CONCURRENT_DOWNLOADS) ! (j - i) = tasks ! j"
          using lt "1.prems"(1,2) by (simp add: slice_def)
        moreover have "j - i < length (slice tasks i (i + MAX_CONCURRENT_DOWNLOADS))"
          using lt "1.prems"(1,2) by (simp add: slice_def) arith
        ultimately show ?thesis by (metis nth_mem)
      qed
      from download_batch_unreachable [OF this "1.prems"(3), of env n s] b None show False by simp
    qed
    then have le: "i + MAX_CONCURRENT_DOWNLOADS \<le> j" by simp
    from "1.IH" [OF True b [symmetric] None le "1.prems"(2,3)] True b None show ?thesis
      by (simp add: download_batches.simps [of env w key n tasks i s])
  qed
qed


lemma nea_reconstitute:
  "no_extraction_added s (snd (reconstitute tmp is acc s))"
proof (induction "is" arbitrary: acc s)
  case Nil
  show ?case by (simp add: nea_refl)
next
  case (Cons i rest)
  show ?case
  proof (cases "files s (part_name tmp i)")
    case None
    then show ?thesis by (simp add: nea_refl)
  next
    case (Some d)
    have "no_extraction_added s (unlink (part_name tmp i) s)" by (rule nea_unlink)
    with Cons.IH [of "unlink (part_name tmp i) s" "acc @ d"] Some show ?thesis
      by (auto intro: nea_trans)
  qed
qed

lemma nea_downloadLargeFile:
  "no_extraction_added s (snd (downloadLargeFile env w key tmp n s))"
proof -
  let ?np = "ceil_div n DOWNLOAD_CHUNK_SIZE"
  obtain r s1 where b: "download_batches env w key ?np (download_tasks tmp n) 0 s = (r, s1)"
    by (cases "download_batches env w key ?np (download_tasks tmp n) 0 s")
  have a: "no_extraction_added s s1"
    using nea_download_batches [of s env w key ?np "download_tasks tmp n" 0] b by simp
  show ?thesis
  proof (cases r)
    case (Some e)
    with b a show ?thesis by (simp add: downloadLargeFile_def Let_def)
  next
    case None
    obtain c s2 where rc: "reconstitute tmp [0..<?np] [] s1 = (c, s2)"
      by (cases "reconstitute tmp [0..<?np] [] s1")
    have a2: "no_extraction_added s1 s2"
      using nea_reconstitute [of s1 tmp "[0..<?np]" "[]"] rc by simp
    from None b rc a a2 show ?thesis
      by (cases c) (auto simp: downloadLargeFile_def Let_def intro: nea_trans nea_bun_write)
  qed
qed

lemma downloadLargeFile_unreachable:
  assumes "i < ceil_div n DOWNLOAD_CHUNK_SIZE"
    and "part_unreachable w key (make_task tmp n i)"
  shows "\<exists>k. fst (downloadLargeFile env w key tmp n s) = Some (PartExhausted k (ceil_div n DOWNLOAD_CHUNK_SIZE))"
proof -
  let ?np = "ceil_div n DOWNLOAD_CHUNK_SIZE"
  have len: "i < length (download_tasks tmp n)" using assms(1) by (simp add: download_tasks_def)
  have nth: "download_tasks tmp n ! i = make_task tmp n i"
    using assms(1) by (simp add: download_tasks_def)
  have "fst (download_batches env w key ?np (download_tasks tmp n) 0 s) \<noteq> None"
    using download_batches_unreachable [of 0 i "download_tasks tmp n" w key env ?np s] len nth assms(2)
    by simp
  with download_batches_result [of env w key ?np "download_tasks tmp n" 0 s]
  obtain k where "fst (download_batches env w key ?np (download_tasks tmp n) 0 s) = Some (PartExhausted k ?np)"
    by auto
  then show ?thesis
    by (auto simp: downloadLargeFile_def Let_def split: prod.splits)
qed

section \<open>Two restores of a 100 MB backup, step by step\<close>


lemma tasks_100MB:
  "download_tasks ''/tmp/restore_t.tar.gz'' 104857600 =
     [\<lparr>partNumber = 1, range_start = 0, range_end = 52428799,
        task_tempFile = ''/tmp/restore_t.tar.gz.part0''\<rparr>,
      \<lparr>partNumber = 2, range_start = 52428800, range_end = 104857599,
        task_tempFile = ''/tmp/restore_t.tar.gz.part1''\<rparr>]"
  by (simp add: download_tasks_def ceil_div_def DOWNLOAD_CHUNK_SIZE_def make_task_def part_name_def
      string_of_nat.simps digit_char_num upt_conv_Cons Let_def)

lemma length_whole_object: "length whole_object = 104857600"
  by (simp add: whole_object_def)

lemma rangeless_get_range: "get_range rangeless_world = (\<lambda>key a b attempt. RangeBody whole_object)"
  by (simp add: rangeless_world_def)

lemma rangeless_part:
  "downloadRangeWithRetry env rangeless_world k a b n t s =
     (Inr whole_object,
      if 104857600 \<noteq> int b - int a + 1
      then emit (WarnPartSize n 104857600 (b - a + 1)) (emit (HttpGetRange (object_url env k) a b) s)
      else emit (HttpGetRange (object_url env k) a b) s)"
  by (simp add: downloadRangeWithRetry_def downloadRange_attempts.simps [of _ _ _ _ _ _ _ "Suc 0"]
      MAX_RETRIES_def rangeless_get_range length_whole_object Let_def)

lemma rangeless_batch:
  "download_batches env rangeless_world k 2 (download_tasks ''/tmp/restore_t.tar.gz'' 104857600) 0 s =
     (None,
      bun_write ''/tmp/restore_t.tar.gz.part1'' whole_object
        (emit (WarnPartSize 2 104857600 52428800)
          (emit (HttpGetRange (object_url env k) 52428800 104857599)
            (bun_write ''/tmp/restore_t.tar.gz.part0'' whole_object
              (emit (WarnPartSize 1 104857600 52428800)
                (emit (HttpGetRange (object_url env k) 0 52428799) s))))))"
  by (simp add: tasks_100MB download_batches.simps [of _ _ _ _ _ 0] download_batches.simps [of _ _ _ _ _ 5]
      MAX_CONCURRENT_DOWNLOADS_def slice_def downloadPart_def rangeless_part)

lemma ceil_div_100MB: "ceil_div 104857600 DOWNLOAD_CHUNK_SIZE = 2"
  by (simp add: ceil_div_def DOWNLOAD_CHUNK_SIZE_def)

lemma rangeless_download:
  "downloadLargeFile env rangeless_world k ''/tmp/restore_t.tar.gz'' 104857600 s =
     (None,
      s\<lparr>files := (files s)
           (''/tmp/restore_t.tar.gz.part0'' := None, ''/tmp/restore_t.tar.gz.part1'' := None,
            ''/tmp/restore_t.tar.gz'' \<mapsto> whole_object @ whole_object),
        effects := effects s @
           [HttpGetRange (object_url env k) 0 52428799, WarnPartSize 1 104857600 52428800,
            FsWrite ''/tmp/restore_t.tar.gz.part0'' whole_object,
            HttpGetRange (object_url env k) 52428800 104857599, WarnPartSize 2 104857600 52428800,
            FsWrite ''/tmp/restore_t.tar.gz.part1'' whole_object,
            FsUnlink ''/tmp/restore_t.tar.gz.part0'', FsUnlink ''/tmp/restore_t.tar.gz.part1'',
            FsWrite ''/tmp/restore_t.tar.gz'' (whole_object @ whole_object)]\<rparr>)"
  by (simp add: downloadLargeFile_def Let_def ceil_div_100MB rangeless_batch upt_conv_Cons part_name_def
      string_of_nat.simps digit_char_num bun_write_def emit_def unlink_def)

lemma rangeless_restore:
  "handleRestore credentials rangeless_world ''/data'' ''backups/1_2_data.tar.gz'' ''t'' initial =
     (\<lparr>status = 200,
       body = RestoreJson \<lparr>restored_from = ''backups/1_2_data.tar.gz'', restored_to = ''/data'',
                restore_size = 209715200, restore_note = Some ''complete restore''\<rparr>\<rparr>,
      initial\<lparr>restoreCount := 1,
        files := Map.empty,
        effects :=
           [HttpHead ''http://r2/bucket/backups/1_2_data.tar.gz'',
            HttpGetRange ''http://r2/bucket/backups/1_2_data.tar.gz'' 0 52428799,
            WarnPartSize 1 104857600 52428800,
            FsWrite ''/tmp/restore_t.tar.gz.part0'' whole_object,
            HttpGetRange ''http://r2/bucket/backups/1_2_data.tar.gz'' 52428800 104857599,
            WarnPartSize 2 104857600 52428800,
            FsWrite ''/tmp/restore_t.tar.gz.part1'' whole_object,
            FsUnlink ''/tmp/restore_t.tar.gz.part0'', FsUnlink ''/tmp/restore_t.tar.gz.part1'',
            FsWrite ''/tmp/restore_t.tar.gz'' (whole_object @ whole_object),
            WarnSizeMismatch 209715200 104857600, Mkdir ''/'',
            TarExtract ''/tmp/restore_t.tar.gz'' ''/'', FsUnlink ''/tmp/restore_t.tar.gz'']\<rparr>)"
proof -
  have h: "head_object rangeless_world ''backups/1_2_data.tar.gz'' = HeadOk (Some 104857600)"
    by (simp add: rangeless_world_def)
  have x: "tar_extract rangeless_world = (\<lambda>a p. 0)"
    by (simp add: rangeless_world_def)
  have u: "object_url credentials ''backups/1_2_data.tar.gz'' = ''http://r2/bucket/backups/1_2_data.tar.gz''"
    by (simp add: object_url_def credentials_def env_text_def or_else_def truthy_def)
  show ?thesis
    by (simp add: handleRestore_def handleRestore_try_def Let_def createS3Client_def
        truthy_def startsWith_def normalize_directory_def restore_tempFile_def download_backup_def
        LARGE_FILE_THRESHOLD_def h rangeless_download verify_and_extract_def stat_size_def
        parent_of_data x u length_whole_object ensureDirectory_def emit_def unlink_def initial_def)
      (simp add: credentials_def fun_eq_iff)
qed


lemma unreachable_get_range: "get_range unreachable_world = (\<lambda>key a b attempt. RangeRejected)"
  by (simp add: unreachable_world_def)

lemma attempts_failed_step:
  "attempt \<le> MAX_RETRIES \<Longrightarrow> \<forall>d. get_range w key st en attempt \<noteq> RangeBody d \<Longrightarrow>
   downloadRange_attempts env w key st en pn tp attempt s =
     downloadRange_attempts env w key st en pn tp (Suc attempt)
       (emit (HttpGetRange (object_url env key) st en) s)"
  by (cases "get_range w key st en attempt")
     (simp_all add: downloadRange_attempts.simps [of env w key st en pn tp attempt s] Let_def)

lemma attempts_over:
  "MAX_RETRIES < attempt \<Longrightarrow>
   downloadRange_attempts env w key st en pn tp attempt s = (Inl (PartExhausted pn tp), s)"
  by (simp add: downloadRange_attempts.simps [of env w key st en pn tp attempt s])

lemma unreachable_part:
  "downloadRangeWithRetry env unreachable_world k a b n t s =
     (Inl (PartExhausted n t),
      emit (HttpGetRange (object_url env k) a b)
        (emit (HttpGetRange (object_url env k) a b)
          (emit (HttpGetRange (object_url env k) a b) s)))"
  by (simp add: downloadRangeWithRetry_def attempts_failed_step attempts_over MAX_RETRIES_def
      unreachable_get_range)

lemma unreachable_download:
  "downloadLargeFile env unreachable_world k ''/tmp/restore_t.tar.gz'' 104857600 s =
     (Some (PartExhausted 1 2),
      s\<lparr>effects := effects s @
           [HttpGetRange (object_url env k) 0 52428799, HttpGetRange (object_url env k) 0 52428799,
            HttpGetRange (object_url env k) 0 52428799,
            HttpGetRange (object_url env k) 52428800 104857599,
            HttpGetRange (object_url env k) 52428800 104857599,
            HttpGetRange (object_url env k) 52428800 104857599]\<rparr>)"
  by (simp add: downloadLargeFile_def Let_def ceil_div_100MB tasks_100MB
      download_batches.simps [of _ _ _ _ _ 0] MAX_CONCURRENT_DOWNLOADS_def slice_def downloadPart_def
      unreachable_part emit_def)

lemma unreachable_restore:
  "handleRestore credentials unreachable_world ''/data'' ''backups/1_2_data.tar.gz'' ''t'' initial =
     (\<lparr>status = 500, body = ErrorJson (RestoreFailed (PartExhausted 1 2))\<rparr>,
      initial\<lparr>restoreCount := 1,
        effects :=
           [HttpHead ''http://r2/bucket/backups/1_2_data.tar.gz'',
            HttpGetRange ''http://r2/bucket/backups/1_2_data.tar.gz'' 0 52428799,
            HttpGetRange ''http://r2/bucket/backups/1_2_data.tar.gz'' 0 52428799,
            HttpGetRange ''http://r2/bucket/backups/1_2_data.tar.gz'' 0 52428799,
            HttpGetRange ''http://r2/bucket/backups/1_2_data.tar.gz'' 52428800 104857599,
            HttpGetRange ''http://r2/bucket/backups/1_2_data.tar.gz'' 52428800 104857599,
            HttpGetRange ''http://r2/bucket/backups/1_2_data.tar.gz'' 52428800 104857599]\<rparr>)"
proof -
  have h: "head_object unreachable_world ''backups/1_2_data.tar.gz'' = HeadOk (Some 104857600)"
    by (simp add: unreachable_world_def)
  have u: "object_url credentials ''backups/1_2_data.tar.gz'' = ''http://r2/bucket/backups/1_2_data.tar.gz''"
    by (simp add: object_url_def credentials_def env_text_def or_else_def truthy_def)
  show ?thesis
    by (simp add: handleRestore_def handleRestore_try_def Let_def createS3Client_def
        truthy_def startsWith_def normalize_directory_def restore_tempFile_def download_backup_def
        LARGE_FILE_THRESHOLD_def h unreachable_download u emit_def initial_def)
      (simp add: credentials_def)
qed

section \<open>Restore: a part that cannot be downloaded\<close>

text \<open>
  C3. In a multipart restore (the name is accepted, the HEAD request reports a size of at
  least the threshold), if one part gets no body in any of its \<open>MAX_RETRIES\<close> attempts,
  then \<open>handleRestore\<close> answers 500 with the error of an exhausted part, and the run adds no
  extraction: \<open>tar\<close> is not invoked.
\<close>

theorem failed_chunk_fails_restore:
  assumes "createS3Client env Data_bucket = Inr ()"
    and "\<not> includes_str f ''..''" and "startsWith f ''backups/''"
    and "head_object w f = HeadOk (Some n)" and "LARGE_FILE_THRESHOLD \<le> n"
    and "i < ceil_div n DOWNLOAD_CHUNK_SIZE"
    and "\<forall>a. 1 \<le> a \<and> a \<le> MAX_RETRIES \<longrightarrow>
           (\<forall>d. get_range w f (i * DOWNLOAD_CHUNK_SIZE)
                  (min (i * DOWNLOAD_CHUNK_SIZE + DOWNLOAD_CHUNK_SIZE - 1) (n - 1)) a \<noteq> RangeBody d)"
  shows "(\<exists>k. fst (handleRestore env w p f ts s) =
            \<lparr>status = 500,
             body = ErrorJson (RestoreFailed (PartExhausted k (ceil_div n DOWNLOAD_CHUNK_SIZE)))\<rparr>) \<and>
         filter is_extraction (effects (snd (handleRestore env w p f ts s))) =
           filter is_extraction (effects s)"
proof -
  let ?s0 = "s\<lparr>restoreCount := restoreCount s + 1, activeRestores := activeRestores s + 1\<rparr>"
  let ?s1 = "emit (HttpHead (object_url env f)) ?s0"
  let ?tmp = "restore_tempFile ts"
  have un: "part_unreachable w f (make_task ?tmp n i)"
    using assms(7) by (simp add: part_unreachable_def make_task_def Let_def)
  obtain r s2 where d: "downloadLargeFile env w f ?tmp n ?s1 = (r, s2)"
    by (cases "downloadLargeFile env w f ?tmp n ?s1")
  from downloadLargeFile_unreachable [OF assms(6) un, of env ?s1] d
  obtain k where k: "r = Some (PartExhausted k (ceil_div n DOWNLOAD_CHUNK_SIZE))" by auto
  have "no_extraction_added ?s1 s2"
    using nea_downloadLargeFile [of ?s1 env w f ?tmp n] d by simp
  then have e: "filter is_extraction (effects s2) = filter is_extraction (effects s)"
    by (simp add: no_extraction_added_def emit_def is_extraction_simps)
  have "handleRestore env w p f ts s =
          (\<lparr>status = 500, body = ErrorJson (RestoreFailed (PartExhausted k (ceil_div n DOWNLOAD_CHUNK_SIZE)))\<rparr>,
           s2\<lparr>activeRestores := activeRestores s2 - 1\<rparr>)"
    using assms(1-5) d k
    by (simp add: handleRestore_def handleRestore_try_def Let_def download_backup_def)
  with e show ?thesis by auto
qed

theorem failed_chunk_fails_restore_witness:
  "createS3Client credentials Data_bucket = Inr () \<and>
   \<not> includes_str ''backups/1_2_data.tar.gz'' ''..'' \<and>
   startsWith ''backups/1_2_data.tar.gz'' ''backups/'' \<and>
   head_object unreachable_world ''backups/1_2_data.tar.gz'' = HeadOk (Some 104857600) \<and>
   LARGE_FILE_THRESHOLD \<le> 104857600 \<and>
   0 < ceil_div 104857600 DOWNLOAD_CHUNK_SIZE \<and>
   get_range unreachable_world ''backups/1_2_data.tar.gz'' 0 52428799 1 = RangeRejected \<and>
   get_range unreachable_world ''backups/1_2_data.tar.gz'' 0 52428799 2 = RangeRejected \<and>
   get_range unreachable_world ''backups/1_2_data.tar.gz'' 0 52428799 3 = RangeRejected \<and>
   fst (handleRestore credentials unreachable_world ''/data'' ''backups/1_2_data.tar.gz'' ''t'' initial) =
     \<lparr>status = 500, body = ErrorJson (RestoreFailed (PartExhausted 1 2))\<rparr> \<and>
   filter is_extraction
     (effects (snd (handleRestore credentials unreachable_world ''/data'' ''backups/1_2_data.tar.gz''
        ''t'' initial))) = []"
  using failed_chunk_fails_restore [of credentials "''backups/1_2_data.tar.gz''" unreachable_world
      104857600 0 "''/data''" "''t''" initial]
    unreachable_restore
  by (simp add: createS3Client_def credentials_def truthy_def startsWith_def LARGE_FILE_THRESHOLD_def
      ceil_div_100MB unreachable_get_range is_extraction_simps unreachable_world_def initial_def)

section \<open>Restore: a downloaded file of the wrong size\<close>

text \<open>
  C1, as the code has it. When the download has succeeded and the size of the temp file
  differs from the size the HEAD request reported, \<open>handleRestore\<close> logs the mismatch and goes
  on: it creates the parent directory and runs the extraction on the temp file. The answer
  is 200 with the downloaded size when the extraction exits with 0, and 500 only when the
  extraction itself fails.
\<close>

theorem restore_size_mismatch_only_warns:
  assumes "createS3Client env Data_bucket = Inr ()"
    and "\<not> includes_str f ''..''" and "startsWith f ''backups/''"
    and "head_object w f = HeadOk (Some n)"
    and "download_backup env w f (restore_tempFile ts) n
           (emit (HttpHead (object_url env f))
              (s\<lparr>restoreCount := restoreCount s + 1, activeRestores := activeRestores s + 1\<rparr>)) =
         (None, s2)"
    and "stat_size s2 (restore_tempFile ts) \<noteq> n"
  shows "fst (handleRestore env w p f ts s) =
           (if tar_extract w (files s2 (restore_tempFile ts)) (parent_of (normalize_directory p)) = 0
            then \<lparr>status = 200,
                   body = RestoreJson \<lparr>restored_from = f, restored_to = normalize_directory p,
                            restore_size = stat_size s2 (restore_tempFile ts),
                            restore_note = Some ''complete restore''\<rparr>\<rparr>
            else \<lparr>status = 500,
                   body = ErrorJson (RestoreFailed (TarExtractFailed
                            (tar_extract w (files s2 (restore_tempFile ts))
                               (parent_of (normalize_directory p)))))\<rparr>) \<and>
         effects (snd (handleRestore env w p f ts s)) =
           effects s2 @
             [WarnSizeMismatch (stat_size s2 (restore_tempFile ts)) n,
              Mkdir (parent_of (normalize_directory p)),
              TarExtract (restore_tempFile ts) (parent_of (normalize_directory p))] @
             (if tar_extract w (files s2 (restore_tempFile ts)) (parent_of (normalize_directory p)) = 0
              then [FsUnlink (restore_tempFile ts)] else [])"
  using assms
  by (simp add: handleRestore_def handleRestore_try_def Let_def verify_and_extract_def
      ensureDirectory_def emit_def unlink_def)

theorem restore_size_mismatch_only_warns_witness:
  "createS3Client credentials Data_bucket = Inr () \<and>
   \<not> includes_str ''backups/1_2_data.tar.gz'' ''..'' \<and>
   startsWith ''backups/1_2_data.tar.gz'' ''backups/'' \<and>
   head_object rangeless_world ''backups/1_2_data.tar.gz'' = HeadOk (Some 104857600) \<and>
   fst (download_backup credentials rangeless_world ''backups/1_2_data.tar.gz'' (restore_tempFile ''t'')
          104857600
          (emit (HttpHead (object_url credentials ''backups/1_2_data.tar.gz''))
             (initial\<lparr>restoreCount := restoreCount initial + 1,
                        activeRestores := activeRestores initial + 1\<rparr>))) = None \<and>
   stat_size
     (snd (download_backup credentials rangeless_world ''backups/1_2_data.tar.gz'' (restore_tempFile ''t'')
          104857600
          (emit (HttpHead (object_url credentials ''backups/1_2_data.tar.gz''))
             (initial\<lparr>restoreCount := restoreCount initial + 1,
                        activeRestores := activeRestores initial + 1\<rparr>))))
     (restore_tempFile ''t'') = 209715200 \<and>
   status (fst (handleRestore credentials rangeless_world ''/data'' ''backups/1_2_data.tar.gz'' ''t''
     initial)) = 200"
proof -
  let ?s1 = "emit (HttpHead (object_url credentials ''backups/1_2_data.tar.gz''))
             (initial\<lparr>restoreCount := restoreCount initial + 1,
                        activeRestores := activeRestores initial + 1\<rparr>)"
  let ?d = "download_backup credentials rangeless_world ''backups/1_2_data.tar.gz'' (restore_tempFile ''t'')
          104857600 ?s1"
  have c: "createS3Client credentials Data_bucket = Inr ()"
    by (simp add: createS3Client_def credentials_def truthy_def)
  have n: "\<not> includes_str ''backups/1_2_data.tar.gz'' ''..''" "startsWith ''backups/1_2_data.tar.gz'' ''backups/''"
    by (simp_all add: startsWith_def)
  have h: "head_object rangeless_world ''backups/1_2_data.tar.gz'' = HeadOk (Some 104857600)"
    by (simp add: rangeless_world_def)
  have d: "?d = (None, snd ?d)"
    by (simp add: download_backup_def LARGE_FILE_THRESHOLD_def restore_tempFile_def rangeless_download)
  have z: "stat_size (snd ?d) (restore_tempFile ''t'') = 209715200"
    by (simp add: download_backup_def LARGE_FILE_THRESHOLD_def restore_tempFile_def rangeless_download
        stat_size_def length_whole_object)
  have x: "tar_extract rangeless_world = (\<lambda>a p. 0)"
    by (simp add: rangeless_world_def)
  have d1: "fst ?d = None"
    by (simp add: download_backup_def LARGE_FILE_THRESHOLD_def restore_tempFile_def rangeless_download)
  from restore_size_mismatch_only_warns [OF c n h d, of "''/data''"] z x
  have st: "status (fst (handleRestore credentials rangeless_world ''/data'' ''backups/1_2_data.tar.gz'' ''t''
     initial)) = 200"
    by simp
  show ?thesis by (intro conjI c n h d1 z st)
qed

text \<open>
  The claim as stated (a size mismatch is an error and nothing is extracted) fails: with
  a HEAD size of 100 MB and a store that answers each of the two ranged reads with the
  whole object, the reconstructed file has 200 MB; it is extracted all the same and the
  answer is 200.
\<close>

theorem restore_size_mismatch_still_extracts:
  "head_object rangeless_world ''backups/1_2_data.tar.gz'' = HeadOk (Some 104857600) \<and>
   fst (handleRestore credentials rangeless_world ''/data'' ''backups/1_2_data.tar.gz'' ''t'' initial) =
     \<lparr>status = 200,
      body = RestoreJson \<lparr>restored_from = ''backups/1_2_data.tar.gz'', restored_to = ''/data'',
               restore_size = 209715200, restore_note = Some ''complete restore''\<rparr>\<rparr> \<and>
   WarnSizeMismatch 209715200 104857600 \<in>
     set (effects (snd (handleRestore credentials rangeless_world ''/data'' ''backups/1_2_data.tar.gz''
        ''t'' initial))) \<and>
   TarExtract ''/tmp/restore_t.tar.gz'' ''/'' \<in>
     set (effects (snd (handleRestore credentials rangeless_world ''/data'' ''backups/1_2_data.tar.gz''
        ''t'' initial)))"
  by (simp add: rangeless_restore) (simp add: rangeless_world_def)

section \<open>Multipart download: ranges, part files and reconstitution\<close>


lemma chunk_positive: "0 < DOWNLOAD_CHUNK_SIZE"
  by (simp add: DOWNLOAD_CHUNK_SIZE_def)

lemma ceil_div_covers: "0 < c \<Longrightarrow> n \<le> ceil_div n c * c"
proof -
  assume c: "0 < c"
  have "n + c - 1 < ((n + c - 1) div c) * c + c"
    using c by (metis add.commute div_mult_mod_eq mod_less_divisor mult.commute nat_add_left_cancel_less)
  then show ?thesis using c by (simp add: ceil_div_def)
qed

lemma ceil_div_tight: "0 < c \<Longrightarrow> i < ceil_div n c \<Longrightarrow> i * c < n"
proof -
  assume c: "0 < c" and i: "i < ceil_div n c"
  then have "Suc i \<le> (n + c - 1) div c" by (simp add: ceil_div_def)
  then have "Suc i * c \<le> n + c - 1" using c by (simp add: less_eq_div_iff_mult_less_eq)
  then show ?thesis using c by simp
qed

lemma task_fields:
  "partNumber (make_task tmp n i) = i + 1"
  "range_start (make_task tmp n i) = i * DOWNLOAD_CHUNK_SIZE"
  "range_end (make_task tmp n i) = min (i * DOWNLOAD_CHUNK_SIZE + DOWNLOAD_CHUNK_SIZE - 1) (n - 1)"
  "task_tempFile (make_task tmp n i) = part_name tmp i"
  by (simp_all add: make_task_def Let_def)

lemma range_end_alt:
  "i * DOWNLOAD_CHUNK_SIZE < n \<Longrightarrow>
   range_end (make_task tmp n i) = min ((i + 1) * DOWNLOAD_CHUNK_SIZE) n - 1"
  using chunk_positive by (auto simp: task_fields min_def algebra_simps)

lemma ranges_upto:
  assumes "0 < c"
  shows "concat (map (\<lambda>i. [i * c..<min ((i + 1) * c) n]) [0..<k]) = [0..<min (k * c) n]"
proof (induction k)
  case 0
  show ?case by simp
next
  case (Suc k)
  have "[0..<min (k * c) n] @ [k * c..<min ((k + 1) * c) n] = [0..<min (Suc k * c) n]"
  proof (cases "k * c \<le> n")
    case True
    then have "min (k * c) n = k * c" by simp
    moreover have "k * c \<le> min ((k + 1) * c) n" using True by simp
    ultimately show ?thesis
      using upt_add_eq_append [of 0 "k * c" "min ((k + 1) * c) n - k * c"] by simp
  next
    case False
    then show ?thesis by (simp add: min_def)
  qed
  with Suc show ?case by simp
qed


lemma pieces_upto:
  assumes "0 < c"
  shows "concat (map (\<lambda>i. take (min ((i + 1) * c) (length obj) - i * c) (drop (i * c) obj)) [0..<k]) =
         take (min (k * c) (length obj)) obj"
proof (induction k)
  case 0
  show ?case by simp
next
  case (Suc k)
  let ?n = "length obj"
  have "take (min (k * c) ?n) obj @ take (min ((k + 1) * c) ?n - k * c) (drop (k * c) obj) =
        take (min (Suc k * c) ?n) obj"
  proof (cases "k * c \<le> ?n")
    case True
    then have m: "min (k * c) ?n = k * c" by simp
    have "min (Suc k * c) ?n = k * c + (min ((k + 1) * c) ?n - k * c)" using True by simp
    then show ?thesis unfolding m by (metis take_add)
  next
    case False
    then show ?thesis by (simp add: min_def)
  qed
  with Suc show ?case by simp
qed

text \<open>The decimal digits of a number determine it, so the part files of a download have
  different names.\<close>

lemma digits_value: "foldl (\<lambda>a ch. 10 * a + (of_char ch - 48)) 0 (string_of_nat n) = n"
proof (induction n rule: string_of_nat.induct)
  case (1 n)
  show ?case
  proof (cases "n < 10")
    case True
    then show ?thesis by (simp add: string_of_nat.simps [of n] digit_char_def)
  next
    case False
    have "(48 + n mod 10) mod 256 = 48 + n mod 10"
      by (simp add: mod_less)
    with False "1.IH" show ?thesis
      by (simp add: string_of_nat.simps [of n] digit_char_def)
  qed
qed

lemma string_of_nat_inject: "string_of_nat m = string_of_nat n \<Longrightarrow> m = n"
  by (metis digits_value)

lemma part_name_inject: "part_name tmp i = part_name tmp j \<Longrightarrow> i = j"
  by (simp add: part_name_def string_of_nat_inject)

lemma part_name_not_target: "part_name tmp i \<noteq> tmp"
  by (simp add: part_name_def)


lemma with_part_apply:
  "with_part obj t f k = (if k = task_tempFile t then Some (part_bytes obj t) else f k)"
  by (simp add: with_part_def)

lemma downloadPart_served:
  assumes "serves w key obj"
  shows "fst (downloadPart env w key n t s) = None \<and>
         files (snd (downloadPart env w key n t s)) = with_part obj t (files s)"
proof -
  have g: "get_range w key (range_start t) (range_end t) (Suc 0) = RangeBody (part_bytes obj t)"
    using assms by (simp add: serves_def part_bytes_def)
  show ?thesis
    by (simp add: downloadPart_def downloadRangeWithRetry_def
        downloadRange_attempts.simps [of env w key "range_start t" "range_end t" "partNumber t" n "Suc 0" s]
        MAX_RETRIES_def g Let_def bun_write_def emit_def with_part_def)
qed

lemma download_batch_served:
  assumes "serves w key obj"
  shows "fst (download_batch env w key n ts s) = None \<and>
         files (snd (download_batch env w key n ts s)) = fold (with_part obj) ts (files s)"
proof (induction ts arbitrary: s)
  case Nil
  show ?case by simp
next
  case (Cons t ts)
  obtain r s1 where p: "downloadPart env w key n t s = (r, s1)"
    by (cases "downloadPart env w key n t s")
  obtain rs s2 where b: "download_batch env w key n ts s1 = (rs, s2)"
    by (cases "download_batch env w key n ts s1")
  from downloadPart_served [OF assms, where env = env and n = n and t = t and s = s] p
  have r: "r = None" "files s1 = with_part obj t (files s)" by simp_all
  from Cons.IH [of s1] b
  have rs: "rs = None" "files s2 = fold (with_part obj) ts (files s1)"
    by simp_all
  from p b r rs show ?case by simp
qed

lemma download_batches_served:
  "serves w key obj \<Longrightarrow>
   fst (download_batches env w key n tasks i s) = None \<and>
   files (snd (download_batches env w key n tasks i s)) =
     fold (with_part obj) (drop i tasks) (files s)"
proof (induction env w key n tasks i s rule: download_batches.induct)
  case (1 env w key n tasks i s)
  show ?case
  proof (cases "i < length tasks")
    case False
    then show ?thesis by (simp add: download_batches.simps [of env w key n tasks i s])
  next
    case True
    let ?b = "slice tasks i (i + MAX_CONCURRENT_DOWNLOADS)"
    obtain r s1 where b: "download_batch env w key n ?b s = (r, s1)"
      by (cases "download_batch env w key n ?b s")
    from download_batch_served [OF "1.prems", where env = env and n = n and ts = ?b and s = s] b
    have r: "r = None" "files s1 = fold (with_part obj) ?b (files s)"
      by simp_all
    have split: "drop i tasks = ?b @ drop (i + MAX_CONCURRENT_DOWNLOADS) tasks"
      by (simp add: slice_def) (metis add.commute append_take_drop_id drop_drop)
    from "1.IH" [OF True b [symmetric] r(1) "1.prems"] True b r split show ?thesis
      by (simp add: download_batches.simps [of env w key n tasks i s])
  qed
qed

lemma fold_with_part_other:
  "k \<notin> task_tempFile ` set ts \<Longrightarrow> fold (with_part obj) ts f k = f k"
  by (induction ts arbitrary: f) (auto simp: with_part_apply)

lemma fold_with_part_lookup:
  "distinct (map task_tempFile ts) \<Longrightarrow> t \<in> set ts \<Longrightarrow>
   fold (with_part obj) ts f (task_tempFile t) = Some (part_bytes obj t)"
proof (induction ts arbitrary: f)
  case Nil
  then show ?case by simp
next
  case (Cons x ts)
  show ?case
  proof (cases "t \<in> set ts")
    case True
    with Cons show ?thesis by simp
  next
    case False
    with Cons.prems have "t = x" "task_tempFile x \<notin> task_tempFile ` set ts" by auto
    then have "fold (with_part obj) (x # ts) f (task_tempFile t) = with_part obj x f (task_tempFile x)"
      by (simp add: fold_with_part_other)
    moreover have "with_part obj x f (task_tempFile x) = Some (part_bytes obj x)"
      by (simp add: with_part_def)
    ultimately show ?thesis using \<open>t = x\<close> by (simp only:)
  qed
qed

lemma reconstitute_parts:
  assumes "distinct is" and "\<forall>i \<in> set is. files s (part_name tmp i) = Some (p i)"
  shows "fst (reconstitute tmp is acc s) = Inr (acc @ concat (map p is))"
  using assms
proof (induction "is" arbitrary: acc s)
  case Nil
  show ?case by simp
next
  case (Cons i rest)
  let ?s' = "unlink (part_name tmp i) s"
  have "\<forall>j \<in> set rest. files ?s' (part_name tmp j) = Some (p j)"
    using Cons.prems by (auto simp: unlink_def emit_def dest: part_name_inject)
  with Cons.IH [of ?s' "acc @ p i"] Cons.prems show ?case by simp
qed


lemma distinct_part_files: "distinct (map task_tempFile (download_tasks tmp n))"
proof -
  have "map task_tempFile (download_tasks tmp n) =
          map (part_name tmp) [0..<ceil_div n DOWNLOAD_CHUNK_SIZE]"
    by (simp add: download_tasks_def task_fields)
  moreover have "inj_on (part_name tmp) (set [0..<ceil_div n DOWNLOAD_CHUNK_SIZE])"
    by (auto intro: inj_onI dest: part_name_inject)
  ultimately show ?thesis by (simp add: distinct_map)
qed

lemma part_bytes_task:
  assumes "i < ceil_div (length obj) DOWNLOAD_CHUNK_SIZE"
  shows "part_bytes obj (make_task tmp (length obj) i) =
           take (min ((i + 1) * DOWNLOAD_CHUNK_SIZE) (length obj) - i * DOWNLOAD_CHUNK_SIZE)
             (drop (i * DOWNLOAD_CHUNK_SIZE) obj)"
proof -
  have lt: "i * DOWNLOAD_CHUNK_SIZE < length obj"
    using ceil_div_tight [OF chunk_positive assms] .
  have "range_end (make_task tmp (length obj) i) + 1 - range_start (make_task tmp (length obj) i) =
          min ((i + 1) * DOWNLOAD_CHUNK_SIZE) (length obj) - i * DOWNLOAD_CHUNK_SIZE"
    using lt chunk_positive by (simp add: range_end_alt [OF lt] task_fields(2))
  then show ?thesis by (simp add: part_bytes_def task_fields(2))
qed

lemma downloadLargeFile_served:
  assumes "serves w key obj"
  shows "fst (downloadLargeFile env w key tmp (length obj) s) = None \<and>
         files (snd (downloadLargeFile env w key tmp (length obj) s)) tmp = Some obj"
proof -
  let ?n = "length obj"
  let ?np = "ceil_div ?n DOWNLOAD_CHUNK_SIZE"
  let ?tasks = "download_tasks tmp ?n"
  let ?p = "\<lambda>i. take (min ((i + 1) * DOWNLOAD_CHUNK_SIZE) ?n - i * DOWNLOAD_CHUNK_SIZE)
                  (drop (i * DOWNLOAD_CHUNK_SIZE) obj)"
  obtain r s1 where b: "download_batches env w key ?np ?tasks 0 s = (r, s1)"
    by (cases "download_batches env w key ?np ?tasks 0 s")
  from download_batches_served [OF assms, where env = env and n = ?np and tasks = ?tasks and i = 0 and s = s] b
  have r: "r = None" and f: "files s1 = fold (with_part obj) ?tasks (files s)" by simp_all
  have parts: "\<forall>i \<in> set [0..<?np]. files s1 (part_name tmp i) = Some (?p i)"
  proof
    fix i assume "i \<in> set [0..<?np]"
    then have i: "i < ?np" by simp
    then have m: "make_task tmp ?n i \<in> set ?tasks" by (simp add: download_tasks_def)
    from fold_with_part_lookup [OF distinct_part_files m, of obj "files s"]
    show "files s1 (part_name tmp i) = Some (?p i)"
      by (simp add: f task_fields(4) part_bytes_task [OF i])
  qed
  have "fst (reconstitute tmp [0..<?np] [] s1) = Inr ([] @ concat (map ?p [0..<?np]))"
    by (rule reconstitute_parts [OF _ parts]) simp
  moreover have "concat (map ?p [0..<?np]) = obj"
    using pieces_upto [OF chunk_positive, of obj ?np] ceil_div_covers [OF chunk_positive, of ?n]
    by (simp add: min_absorb2)
  ultimately have c: "fst (reconstitute tmp [0..<?np] [] s1) = Inr obj" by simp
  obtain s2 where "reconstitute tmp [0..<?np] [] s1 = (Inr obj, s2)"
    using c by (cases "reconstitute tmp [0..<?np] [] s1") auto
  with b r show ?thesis
    by (simp add: downloadLargeFile_def Let_def bun_write_def emit_def)
qed

section \<open>Multipart reconstruction\<close>

text \<open>
  C6. For an object of \<open>N\<close> bytes, \<open>downloadLargeFile\<close> makes \<open>ceil(N / C)\<close> parts with
  \<open>C = DOWNLOAD_CHUNK_SIZE\<close> (50 MB); part \<open>i\<close> asks for the bytes from \<open>i * C\<close> to
  \<open>min((i + 1) * C, N) - 1\<close>; the ranges, one after the other, are exactly the positions
  \<open>0, ..., N - 1\<close>, each once. When the store answers every range with the bytes of the
  object in it, the download succeeds and the temp file holds the object, byte for byte.
  This holds for every \<open>N\<close>; the numbers of parts for \<open>N = 0, C - 1, C, C + 1, 10 C\<close> are
  0, 1, 1, 2 and 10.
\<close>

theorem multipart_reconstruction:
  assumes "serves w key obj"
  shows "length (download_tasks tmp (length obj)) = ceil_div (length obj) DOWNLOAD_CHUNK_SIZE \<and>
         (\<forall>i < ceil_div (length obj) DOWNLOAD_CHUNK_SIZE.
            range_start (download_tasks tmp (length obj) ! i) = i * DOWNLOAD_CHUNK_SIZE \<and>
            range_end (download_tasks tmp (length obj) ! i) =
              min ((i + 1) * DOWNLOAD_CHUNK_SIZE) (length obj) - 1) \<and>
         concat (map (\<lambda>t. [range_start t..<Suc (range_end t)]) (download_tasks tmp (length obj))) =
           [0..<length obj] \<and>
         fst (downloadLargeFile env w key tmp (length obj) s) = None \<and>
         files (snd (downloadLargeFile env w key tmp (length obj) s)) tmp = Some obj"
proof -
  let ?n = "length obj"
  let ?np = "ceil_div ?n DOWNLOAD_CHUNK_SIZE"
  have len: "length (download_tasks tmp ?n) = ?np" by (simp add: download_tasks_def)
  have fields: "range_start (download_tasks tmp ?n ! i) = i * DOWNLOAD_CHUNK_SIZE \<and>
            range_end (download_tasks tmp ?n ! i) = min ((i + 1) * DOWNLOAD_CHUNK_SIZE) ?n - 1"
    if "i < ?np" for i
    using that ceil_div_tight [OF chunk_positive that]
    by (simp add: download_tasks_def task_fields(2) range_end_alt)
  have "map (\<lambda>t. [range_start t..<Suc (range_end t)]) (download_tasks tmp ?n) =
        map (\<lambda>i. [i * DOWNLOAD_CHUNK_SIZE..<min ((i + 1) * DOWNLOAD_CHUNK_SIZE) ?n]) [0..<?np]"
  proof -
    have "[range_start (make_task tmp ?n i)..<Suc (range_end (make_task tmp ?n i))] =
          [i * DOWNLOAD_CHUNK_SIZE..<min ((i + 1) * DOWNLOAD_CHUNK_SIZE) ?n]" if "i < ?np" for i
    proof -
      have lt: "i * DOWNLOAD_CHUNK_SIZE < ?n" using ceil_div_tight [OF chunk_positive that] .
      then have "0 < min ((i + 1) * DOWNLOAD_CHUNK_SIZE) ?n" using chunk_positive by auto
      then show ?thesis by (simp add: task_fields(2) range_end_alt [OF lt])
    qed
    then show ?thesis by (simp add: download_tasks_def)
  qed
  then have cover: "concat (map (\<lambda>t. [range_start t..<Suc (range_end t)]) (download_tasks tmp ?n)) =
           [0..<?n]"
    using ranges_upto [OF chunk_positive, of ?n ?np] ceil_div_covers [OF chunk_positive, of ?n]
    by (simp add: min_absorb2)
  from len fields cover downloadLargeFile_served [OF assms, of env tmp s] show ?thesis by blast
qed


lemma part_counts:
  "ceil_div 0 DOWNLOAD_CHUNK_SIZE = 0"
  "ceil_div (DOWNLOAD_CHUNK_SIZE - 1) DOWNLOAD_CHUNK_SIZE = 1"
  "ceil_div DOWNLOAD_CHUNK_SIZE DOWNLOAD_CHUNK_SIZE = 1"
  "ceil_div (DOWNLOAD_CHUNK_SIZE + 1) DOWNLOAD_CHUNK_SIZE = 2"
  "ceil_div (10 * DOWNLOAD_CHUNK_SIZE) DOWNLOAD_CHUNK_SIZE = 10"
  by (simp_all add: ceil_div_def DOWNLOAD_CHUNK_SIZE_def)

theorem multipart_reconstruction_witness:
  "serves big_world ''backups/1_2_data.tar.gz'' big_object \<and>
   length big_object = DOWNLOAD_CHUNK_SIZE + 1 \<and>
   length (download_tasks ''/tmp/restore_t.tar.gz'' (length big_object)) = 2 \<and>
   range_end (download_tasks ''/tmp/restore_t.tar.gz'' (length big_object) ! 1) = 52428800 \<and>
   fst (downloadLargeFile credentials big_world ''backups/1_2_data.tar.gz'' ''/tmp/restore_t.tar.gz''
          (length big_object) initial) = None \<and>
   files (snd (downloadLargeFile credentials big_world ''backups/1_2_data.tar.gz''
                 ''/tmp/restore_t.tar.gz'' (length big_object) initial)) ''/tmp/restore_t.tar.gz'' =
     Some big_object"
proof -
  have s: "serves big_world ''backups/1_2_data.tar.gz'' big_object"
    by (simp add: serves_def big_world_def)
  have l: "length big_object = DOWNLOAD_CHUNK_SIZE + 1"
    by (simp add: big_object_def DOWNLOAD_CHUNK_SIZE_def)
  have c: "ceil_div (length big_object) DOWNLOAD_CHUNK_SIZE = 2"
    using part_counts(4) by (simp only: l)
  note m = multipart_reconstruction [OF s, of "''/tmp/restore_t.tar.gz''" credentials initial]
  from m c have n: "length (download_tasks ''/tmp/restore_t.tar.gz'' (length big_object)) = 2"
    by simp
  from m c have "range_end (download_tasks ''/tmp/restore_t.tar.gz'' (length big_object) ! 1) =
      min ((1 + 1) * DOWNLOAD_CHUNK_SIZE) (length big_object) - 1"
    by simp
  then have e: "range_end (download_tasks ''/tmp/restore_t.tar.gz'' (length big_object) ! 1) = 52428800"
    by (simp add: l) (simp add: DOWNLOAD_CHUNK_SIZE_def)
  from m have d: "fst (downloadLargeFile credentials big_world ''backups/1_2_data.tar.gz''
        ''/tmp/restore_t.tar.gz'' (length big_object) initial) = None"
    "files (snd (downloadLargeFile credentials big_world ''backups/1_2_data.tar.gz''
                 ''/tmp/restore_t.tar.gz'' (length big_object) initial)) ''/tmp/restore_t.tar.gz'' =
     Some big_object"
    by simp_all
  show ?thesis by (intro conjI s l n e d)
qed

section \<open>Restore: the check of the backup's name\<close>

lemma createS3Client_cases:
  "createS3Client env b = Inl MissingCredentials \<or> createS3Client env b = Inr ()"
  by (simp add: createS3Client_def Let_def)

lemma handleRestore_invalid_name:
  assumes "includes_str f ''..'' \<or> \<not> startsWith f ''backups/''"
  shows "handleRestore env w p f ts s =
           ((if createS3Client env Data_bucket = Inr ()
             then \<lparr>status = 400, body = ErrorJson InvalidBackupFilename\<rparr>
             else \<lparr>status = 500, body = ErrorJson (RestoreFailed MissingCredentials)\<rparr>),
            s\<lparr>restoreCount := restoreCount s + 1\<rparr>)"
  using assms createS3Client_cases [of env Data_bucket]
  by (auto simp: handleRestore_def handleRestore_try_def Let_def)

text \<open>
  C9, as the code has it. A restore request whose backup name contains \<open>..\<close> or does not
  start with \<open>backups/\<close> makes no request to the object store and changes no file, whatever
  the environment. The S3 client is created before the name is checked: with the
  credentials set the answer is 400 \<open>Invalid backup filename\<close>; without them the client's
  creation throws first and the answer is 500.
\<close>

theorem restore_rejects_bad_filename:
  assumes "includes_str f ''..'' \<or> \<not> startsWith f ''backups/''"
  shows "fst (handleRestore env w p f ts s) =
           (if createS3Client env Data_bucket = Inr ()
            then \<lparr>status = 400, body = ErrorJson InvalidBackupFilename\<rparr>
            else \<lparr>status = 500, body = ErrorJson (RestoreFailed MissingCredentials)\<rparr>) \<and>
         effects (snd (handleRestore env w p f ts s)) = effects s \<and>
         files (snd (handleRestore env w p f ts s)) = files s"
  using handleRestore_invalid_name [OF assms, of env w p ts s] by simp

theorem restore_rejects_bad_filename_witness:
  "(includes_str ''backups/../../etc/passwd'' ''..'' \<or>
      \<not> startsWith ''backups/../../etc/passwd'' ''backups/'') \<and>
   fst (handleRestore credentials failing_world ''/data'' ''backups/../../etc/passwd'' ''t'' initial) =
     \<lparr>status = 400, body = ErrorJson InvalidBackupFilename\<rparr> \<and>
   effects (snd (handleRestore credentials failing_world ''/data'' ''backups/../../etc/passwd'' ''t''
     initial)) = []"
  using restore_rejects_bad_filename [of "''backups/../../etc/passwd''" credentials failing_world
    "''/data''" "''t''" initial]
  by (simp add: startsWith_def createS3Client_def credentials_def truthy_def initial_def)

text \<open>
  The claim as stated (always 400) fails where the credentials are not in the environment:
  the name \<open>../etc/passwd\<close> is answered with 500.
\<close>

theorem restore_bad_filename_without_credentials:
  "includes_str ''../etc/passwd'' ''..'' \<and>
   \<not> startsWith ''../etc/passwd'' ''backups/'' \<and>
   status (fst (handleRestore no_credentials failing_world ''/data'' ''../etc/passwd'' ''t'' initial))
     = 500 \<and>
   status (fst (handleRestore no_credentials failing_world ''/data'' ''../etc/passwd'' ''t'' initial))
     \<noteq> 400"
  by (simp add: handleRestore_def handleRestore_try_def createS3Client_def no_credentials_def
      truthy_def startsWith_def Let_def)

section \<open>Backup: a failing archiver\<close>

lemma handleBackup_tar_failure:
  assumes "fst (tar_create w (parent_of (normalize_directory p)) (dirName_of (normalize_directory p))) \<noteq> 0"
  shows "(\<exists>e. fst (handleBackup env w p now s) = \<lparr>status = 500, body = ErrorJson (BackupFailed e)\<rparr>) \<and>
         filter is_upload (effects (snd (handleBackup env w p now s))) = filter is_upload (effects s)"
proof (cases "createS3Client env Data_bucket")
  case (Inl e)
  then show ?thesis by (simp add: handleBackup_def handleBackup_try_def Let_def)
next
  case (Inr c)
  let ?d = "normalize_directory p"
  let ?t = "''/tmp/backup_'' @ formatUTCDateYYYYMMDDHH now @ ''.tar.gz''"
  let ?s0 = "emit (TarCreate ?t (parent_of ?d) (dirName_of ?d)) (s\<lparr>backupCount := backupCount s + 1\<rparr>)"
  obtain x s1 where r: "run_tar_create w ?t (parent_of ?d) (dirName_of ?d) ?s0 = (x, s1)"
    by (cases "run_tar_create w ?t (parent_of ?d) (dirName_of ?d) ?s0")
  have x: "x \<noteq> 0" using assms fst_run_tar_create [of w ?t "parent_of ?d" "dirName_of ?d" ?s0] r by simp
  have e: "effects s1 = effects s @ [TarCreate ?t (parent_of ?d) (dirName_of ?d)]"
    using effects_run_tar_create [of w ?t "parent_of ?d" "dirName_of ?d" ?s0] r by (simp add: emit_def)
  from Inr r x e show ?thesis
    by (simp add: handleBackup_def handleBackup_try_def Let_def is_upload_simps)
qed

lemma resume_tar_failure:
  assumes "fst (tar_create w (waiting_parentDir a) (waiting_dirName a)) \<noteq> 0"
  shows "backupJobs (executeBackupJob_resume w a now s) (job_id (waiting_job a)) =
           Some (fail_job (waiting_job a)
                   (TarCreateFailed (fst (tar_create w (waiting_parentDir a) (waiting_dirName a)))) now) \<and>
         effects (executeBackupJob_resume w a now s) = effects s"
proof -
  obtain x s1 where r: "run_tar_create w (waiting_tempFile a) (waiting_parentDir a) (waiting_dirName a) s = (x, s1)"
    by (cases "run_tar_create w (waiting_tempFile a) (waiting_parentDir a) (waiting_dirName a) s")
  have x: "x = fst (tar_create w (waiting_parentDir a) (waiting_dirName a))"
    using fst_run_tar_create [of w "waiting_tempFile a" "waiting_parentDir a" "waiting_dirName a" s] r by simp
  have e: "effects s1 = effects s"
    using effects_run_tar_create [of w "waiting_tempFile a" "waiting_parentDir a" "waiting_dirName a" s] r by simp
  from r x e assms show ?thesis
    by (simp add: executeBackupJob_resume_def Let_def set_job_def fail_job_def)
qed

text \<open>
  C4. When the archiver exits with a non-zero code, \<open>handleBackup\<close> answers with a 500
  error response and the background job ends as failed with the archiver's exit code as
  its error; in both, nothing is uploaded: the run adds no write to the object store.
\<close>

theorem tar_failure_uploads_nothing:
  "(fst (tar_create w (parent_of (normalize_directory p)) (dirName_of (normalize_directory p))) \<noteq> 0 \<longrightarrow>
      (\<exists>e. fst (handleBackup env w p now s) = \<lparr>status = 500, body = ErrorJson (BackupFailed e)\<rparr>) \<and>
      filter is_upload (effects (snd (handleBackup env w p now s))) = filter is_upload (effects s)) \<and>
   (fst (tar_create w (waiting_parentDir a) (waiting_dirName a)) \<noteq> 0 \<longrightarrow>
      (\<exists>j. backupJobs (executeBackupJob_resume w a now s) (job_id (waiting_job a)) = Some j \<and>
           job_status j = Failed \<and>
           job_error j = Some (TarCreateFailed (fst (tar_create w (waiting_parentDir a) (waiting_dirName a))))) \<and>
      filter is_upload (effects (executeBackupJob_resume w a now s)) = filter is_upload (effects s))"
  using handleBackup_tar_failure [of w p env now s] resume_tar_failure [of w a now s]
  by (simp add: fail_job_def)

theorem tar_failure_uploads_nothing_witness:
  "fst (tar_create failing_world (parent_of (normalize_directory ''/data''))
         (dirName_of (normalize_directory ''/data''))) \<noteq> 0 \<and>
   fst (handleBackup credentials failing_world ''/data'' 0 initial) =
     \<lparr>status = 500, body = ErrorJson (BackupFailed (TarCreateFailed 2))\<rparr> \<and>
   filter is_upload (effects (snd (handleBackup credentials failing_world ''/data'' 0 initial))) = [] \<and>
   fst (tar_create failing_world (waiting_parentDir nightly_waiting) (waiting_dirName nightly_waiting)) \<noteq> 0 \<and>
   map_option job_status (backupJobs (executeBackupJob_resume failing_world nightly_waiting 0 initial) ''nightly'')
     = Some Failed \<and>
   effects (executeBackupJob_resume failing_world nightly_waiting 0 initial) = []"
proof -
  have t: "tar_create failing_world = (\<lambda>p d. (2, None))"
    by (simp add: failing_world_def)
  have b: "fst (handleBackup credentials failing_world ''/data'' 0 initial) =
             \<lparr>status = 500, body = ErrorJson (BackupFailed (TarCreateFailed 2))\<rparr>"
    by (simp add: handleBackup_def handleBackup_try_def Let_def createS3Client_def credentials_def
        truthy_def run_tar_create_def t)
  have r: "executeBackupJob_resume failing_world nightly_waiting 0 initial =
             set_job (fail_job nightly_job (TarCreateFailed 2) 0) initial"
    by (simp add: executeBackupJob_resume_def Let_def run_tar_create_def t nightly_waiting_def)
  have j: "map_option job_status
             (backupJobs (set_job (fail_job nightly_job (TarCreateFailed 2) 0) initial) ''nightly'') =
           Some Failed"
    by (simp add: set_job_def fail_job_def nightly_job_def)
  have e: "effects (set_job (fail_job nightly_job (TarCreateFailed 2) 0) initial) = []"
    by (simp add: set_job_def initial_def)
  show ?thesis
    using tar_failure_uploads_nothing [of failing_world "''/data''" credentials 0 initial nightly_waiting]
      b r j e
    by (simp add: t initial_def)
qed

section \<open>Background jobs: the job table and the job log\<close>


lemma count_job_log:
  "created_count i es = created_count i (filter is_job_log es)"
  "executed_count i es = executed_count i (filter is_job_log es)"
  by (induction es) (auto simp: created_count_def executed_count_def is_job_log_def split: effect.splits)

lemma quiet_step_refl: "quiet_step s s"
  by (simp add: quiet_step_def)

lemma quiet_step_trans: "quiet_step s s1 \<Longrightarrow> quiet_step s1 s2 \<Longrightarrow> quiet_step s s2"
  by (auto simp: quiet_step_def)

lemma quiet_step_jobs_once:
  assumes "quiet_step s s'" and "jobs_once s"
  shows "jobs_once s'"
proof -
  have e: "created_count i (effects s') = created_count i (effects s)"
    "executed_count i (effects s') = executed_count i (effects s)" for i
    using assms(1) count_job_log [of i "effects s"] count_job_log [of i "effects s'"]
    by (simp_all add: quiet_step_def)
  have d: "backupJobs s' i = None \<Longrightarrow> backupJobs s i = None" for i
    using assms(1) by (auto simp: quiet_step_def)
  show ?thesis
    unfolding jobs_once_def
  proof (intro allI conjI impI)
    fix i
    show "created_count i (effects s') \<le> 1" "executed_count i (effects s') \<le> 1"
      using assms(2) e [of i] by (simp_all add: jobs_once_def)
    assume "backupJobs s' i = None"
    then have n: "backupJobs s i = None" by (rule d)
    with assms(2) show "created_count i (effects s') = 0" "executed_count i (effects s') = 0"
      using e [of i] by (simp_all add: jobs_once_def)
  qed
qed

lemma quiet_run_tar_create: "quiet_step s (snd (run_tar_create w t p d s))"
  by (auto simp: run_tar_create_def quiet_step_def split: prod.splits option.splits)

lemma quiet_upload_archive: "quiet_step s (snd (upload_archive w k t s))"
  by (auto simp: upload_archive_def quiet_step_def Let_def emit_def bun_write_def unlink_def
      is_job_log_def split: option.splits)

lemma quiet_set_job: "quiet_step s (set_job j s)"
  by (auto simp: quiet_step_def set_job_def)

lemma quiet_resume: "quiet_step s (executeBackupJob_resume w a now s)"
proof -
  obtain x s1 where r: "run_tar_create w (waiting_tempFile a) (waiting_parentDir a) (waiting_dirName a) s = (x, s1)"
    by (cases "run_tar_create w (waiting_tempFile a) (waiting_parentDir a) (waiting_dirName a) s")
  obtain u s2 where up: "upload_archive w (waiting_key a) (waiting_tempFile a) s1 = (u, s2)"
    by (cases "upload_archive w (waiting_key a) (waiting_tempFile a) s1")
  have q1: "quiet_step s s1"
    using quiet_run_tar_create [of s w "waiting_tempFile a" "waiting_parentDir a" "waiting_dirName a"] r
    by simp
  have q2: "quiet_step s1 s2"
    using quiet_upload_archive [of s1 w "waiting_key a" "waiting_tempFile a"] up by simp
  show ?thesis
  proof (cases "x \<noteq> 0")
    case True
    with r show ?thesis
      by (auto simp: executeBackupJob_resume_def Let_def intro: quiet_step_trans [OF q1] quiet_set_job)
  next
    case False
    with r up show ?thesis
      by (cases u)
         (auto simp: executeBackupJob_resume_def Let_def
            intro: quiet_step_trans [OF q1] quiet_step_trans [OF q2] quiet_set_job)
  qed
qed

lemma quiet_awaiting: "quiet_step s (s\<lparr>awaiting := x\<rparr>)"
  by (simp add: quiet_step_def)

lemma step_TarExited_jobs_once: "jobs_once s \<Longrightarrow> jobs_once (step env w (TarExited k now) s)"
proof (cases "k < length (awaiting s)")
  case False
  assume "jobs_once s"
  with False show ?thesis by simp
next
  case True
  assume j: "jobs_once s"
  let ?s' = "s\<lparr>awaiting := take k (awaiting s) @ drop (Suc k) (awaiting s)\<rparr>"
  have "quiet_step s ?s'" by (rule quiet_awaiting)
  moreover have "quiet_step ?s' (executeBackupJob_resume w (awaiting s ! k) now ?s')"
    by (rule quiet_resume)
  ultimately have "quiet_step s (executeBackupJob_resume w (awaiting s ! k) now ?s')"
    by (rule quiet_step_trans)
  with j True show ?thesis by (auto intro: quiet_step_jobs_once)
qed

text \<open>What \<open>executeBackupJob\<close> does in its first turn: one line of the job log, the job's
  entry, and at most the spawned archiver.\<close>

lemma begin_effects:
  "\<exists>es. effects (snd (snd (executeBackupJob_begin env j now s))) =
          effects s @ LogJobExecution (job_id j) (job_directory j) # es \<and>
        filter is_job_log es = []"
  by (cases "createS3Client env Data_bucket")
     (auto simp: executeBackupJob_begin_def Let_def emit_def set_job_def is_job_log_def)

lemma begin_jobs:
  "backupJobs (snd (snd (executeBackupJob_begin env j now s))) i =
     (if i = job_id j then Some (fst (executeBackupJob_begin env j now s)) else backupJobs s i)"
  by (cases "createS3Client env Data_bucket")
     (auto simp: executeBackupJob_begin_def Let_def emit_def set_job_def fail_job_def)

lemma start_existing:
  "backupJobs s i = Some j \<Longrightarrow>
   handleBackgroundBackupStart env p i now s =
     (\<lparr>status = 200,
       body = JobStateJson \<lparr>state_id = job_id j, state_directory = job_directory j,
                        state_status = job_status j, state_startedAt = startedAt j,
                        state_completedAt = completedAt j\<rparr>\<rparr>, s)"
  by (simp add: handleBackgroundBackupStart_def Let_def)

lemma start_new:
  assumes "backupJobs s i = None"
  shows "\<exists>es. effects (snd (handleBackgroundBackupStart env p i now s)) =
           effects s @ LogJobCreated i (normalize_directory p)
             # LogJobExecution i (normalize_directory p) # es \<and>
         filter is_job_log es = []"
    and "backupJobs (snd (handleBackgroundBackupStart env p i now s)) k = None \<longleftrightarrow>
           k \<noteq> i \<and> backupJobs s k = None"
proof -
  let ?j = "\<lparr>job_id = i, job_directory = normalize_directory p, job_status = Pending,
             startedAt = now, completedAt = None, job_result = None, job_error = None\<rparr>"
  let ?s1 = "emit (LogJobCreated i (normalize_directory p))
               (s\<lparr>backupJobs := (backupJobs s)(i \<mapsto> ?j), backupCount := backupCount s + 1\<rparr>)"
  obtain j' a s2 where b: "executeBackupJob_begin env ?j now ?s1 = (j', a, s2)"
    by (cases "executeBackupJob_begin env ?j now ?s1") auto
  from begin_effects [of env ?j now ?s1] b
  obtain es where es: "effects s2 = effects ?s1 @ LogJobExecution i (normalize_directory p) # es"
    "filter is_job_log es = []" by auto
  have s': "snd (handleBackgroundBackupStart env p i now s) =
              (case a of None \<Rightarrow> s2 | Some x \<Rightarrow> s2\<lparr>awaiting := awaiting s2 @ [x]\<rparr>)"
    using assms b by (simp add: handleBackgroundBackupStart_def Let_def)
  then have e': "effects (snd (handleBackgroundBackupStart env p i now s)) = effects s2"
    and j': "backupJobs (snd (handleBackgroundBackupStart env p i now s)) = backupJobs s2"
    by (simp_all split: option.splits)
  from e' es show "\<exists>es. effects (snd (handleBackgroundBackupStart env p i now s)) =
           effects s @ LogJobCreated i (normalize_directory p)
             # LogJobExecution i (normalize_directory p) # es \<and>
         filter is_job_log es = []"
    by (simp add: emit_def)
  from begin_jobs [of env ?j now ?s1 k] b j'
  show "backupJobs (snd (handleBackgroundBackupStart env p i now s)) k = None \<longleftrightarrow>
           k \<noteq> i \<and> backupJobs s k = None"
    by (auto simp: emit_def)
qed

lemma counts_append:
  "created_count i (es @ fs) = created_count i es + created_count i fs"
  "executed_count i (es @ fs) = executed_count i es + executed_count i fs"
  by (simp_all add: created_count_def executed_count_def)

lemma counts_quiet:
  "filter is_job_log es = [] \<Longrightarrow> created_count i es = 0"
  "filter is_job_log es = [] \<Longrightarrow> executed_count i es = 0"
  using count_job_log [of i es] by (simp_all add: created_count_def executed_count_def)

lemma step_StartBackup_jobs_once:
  assumes "jobs_once s"
  shows "jobs_once (step env w (StartBackup p i now) s)"
proof (cases "backupJobs s i")
  case (Some j)
  with assms show ?thesis by (simp add: start_existing)
next
  case None
  let ?s' = "snd (handleBackgroundBackupStart env p i now s)"
  from start_new(1) [OF None, of env p now]
  obtain es where es: "effects ?s' = effects s @ LogJobCreated i (normalize_directory p)
             # LogJobExecution i (normalize_directory p) # es" "filter is_job_log es = []"
    by blast
  have c: "created_count k (effects ?s') = created_count k (effects s) + (if k = i then 1 else 0)"
    "executed_count k (effects ?s') = executed_count k (effects s) + (if k = i then 1 else 0)" for k
    using es counts_quiet [of es k]
    by (auto simp: counts_append) (auto simp: created_count_def executed_count_def)
  have z: "created_count i (effects s) = 0" "executed_count i (effects s) = 0"
    using assms None by (simp_all add: jobs_once_def)
  show ?thesis
    unfolding jobs_once_def
  proof (intro allI)
    fix k
    show "created_count k (effects (step env w (StartBackup p i now) s)) \<le> 1 \<and>
          executed_count k (effects (step env w (StartBackup p i now) s)) \<le> 1 \<and>
          (backupJobs (step env w (StartBackup p i now) s) k = None \<longrightarrow>
             created_count k (effects (step env w (StartBackup p i now) s)) = 0 \<and>
             executed_count k (effects (step env w (StartBackup p i now) s)) = 0)"
      using c [of k] z assms start_new(2) [OF None, of env p now k]
      by (auto simp: jobs_once_def)
  qed
qed

lemma step_jobs_once: "jobs_once s \<Longrightarrow> jobs_once (step env w e s)"
  by (cases e) (simp_all only: step_StartBackup_jobs_once step_TarExited_jobs_once)

lemma run_jobs_once: "jobs_once s \<Longrightarrow> jobs_once (run env w evs s)"
  by (induction evs arbitrary: s) (simp_all add: step_jobs_once)

lemma initial_jobs_once: "jobs_once initial"
  by (simp add: jobs_once_def initial_def created_count_def executed_count_def)

section \<open>Background jobs run at most once for an id\<close>

text \<open>
  C10. A request to start a background backup under an id that is in the job table is
  answered with that job's state and leaves the file server as it was: the entry is not
  replaced, nothing is logged, spawned or queued. Over any sequence of start requests and
  archiver exits from the initial state, a job is created at most once and executed at
  most once for every id.
\<close>

theorem background_job_at_most_once:
  "(backupJobs s i = Some j \<longrightarrow>
      handleBackgroundBackupStart env p i now s =
        (\<lparr>status = 200,
          body = JobStateJson \<lparr>state_id = job_id j, state_directory = job_directory j,
                        state_status = job_status j, state_startedAt = startedAt j,
                        state_completedAt = completedAt j\<rparr>\<rparr>, s)) \<and>
   created_count i (effects (run env w evs initial)) \<le> 1 \<and>
   executed_count i (effects (run env w evs initial)) \<le> 1"
  using start_existing [of s i j env p now] run_jobs_once [OF initial_jobs_once, of env w evs]
  by (simp add: jobs_once_def)


lemma nightly_first_start:
  "effects (snd (handleBackgroundBackupStart credentials ''/data'' ''nightly'' 0 initial)) =
     [LogJobCreated ''nightly'' ''/data'', LogJobExecution ''nightly'' ''/data'',
      TarCreate (''/tmp/backup_'' @ formatUTCDateYYYYMMDDHH 0 @ ''_nightly.tar.gz'')
        (parent_of ''/data'') (dirName_of ''/data'')] \<and>
   map_option job_status
     (backupJobs (snd (handleBackgroundBackupStart credentials ''/data'' ''nightly'' 0 initial)) ''nightly'')
     = Some Running \<and>
   length (awaiting (snd (handleBackgroundBackupStart credentials ''/data'' ''nightly'' 0 initial))) = 1"
  by (simp add: handleBackgroundBackupStart_def executeBackupJob_begin_def Let_def createS3Client_def
      credentials_def truthy_def normalize_directory_def startsWith_def emit_def set_job_def
      initial_def)

theorem background_job_at_most_once_witness:
  "backupJobs nightly_table ''nightly'' = Some nightly_job \<and>
   handleBackgroundBackupStart credentials ''/data'' ''nightly'' 5 nightly_table =
     (\<lparr>status = 200,
       body = JobStateJson \<lparr>state_id = ''nightly'', state_directory = ''/data'',
                        state_status = Running, state_startedAt = 0,
                        state_completedAt = None\<rparr>\<rparr>, nightly_table) \<and>
   created_count ''nightly''
     (effects (run credentials failing_world
        [StartBackup ''/data'' ''nightly'' 0, StartBackup ''/data'' ''nightly'' 5, TarExited 0 9]
        initial)) = 1 \<and>
   executed_count ''nightly''
     (effects (run credentials failing_world
        [StartBackup ''/data'' ''nightly'' 0, StartBackup ''/data'' ''nightly'' 5, TarExited 0 9]
        initial)) = 1"
proof -
  let ?evs = "[StartBackup ''/data'' ''nightly'' 0, StartBackup ''/data'' ''nightly'' 5, TarExited 0 9]"
  let ?s1 = "snd (handleBackgroundBackupStart credentials ''/data'' ''nightly'' 0 initial)"
  have t: "backupJobs nightly_table ''nightly'' = Some nightly_job"
    by (simp add: nightly_table_def)
  obtain j where j: "backupJobs ?s1 ''nightly'' = Some j"
    using nightly_first_start by auto
  have s2: "step credentials failing_world (StartBackup ''/data'' ''nightly'' 5) ?s1 = ?s1"
    using start_existing [OF j] by simp
  have q: "quiet_step ?s1 (step credentials failing_world (TarExited 0 9) ?s1)"
    using nightly_first_start
    by (auto intro: quiet_step_trans [OF quiet_awaiting quiet_resume])
  have r: "run credentials failing_world ?evs initial = step credentials failing_world (TarExited 0 9) ?s1"
    using s2 by simp
  have c1: "created_count ''nightly'' (effects ?s1) = 1" "executed_count ''nightly'' (effects ?s1) = 1"
    using nightly_first_start by (simp_all add: created_count_def executed_count_def)
  have c: "created_count ''nightly'' (effects (run credentials failing_world ?evs initial)) = 1"
    "executed_count ''nightly'' (effects (run credentials failing_world ?evs initial)) = 1"
    using q c1 count_job_log [of "''nightly''" "effects ?s1"]
      count_job_log [of "''nightly''" "effects (step credentials failing_world (TarExited 0 9) ?s1)"]
    unfolding r by (simp_all add: quiet_step_def)
  from background_job_at_most_once [of nightly_table "''nightly''" nightly_job credentials "''/data''" 5
      failing_world ?evs] t
  have h: "handleBackgroundBackupStart credentials ''/data'' ''nightly'' 5 nightly_table =
     (\<lparr>status = 200,
       body = JobStateJson \<lparr>state_id = ''nightly'', state_directory = ''/data'',
                        state_status = Running, state_startedAt = 0,
                        state_completedAt = None\<rparr>\<rparr>, nightly_table)"
    by (simp add: nightly_job_def)
  show ?thesis by (intro conjI t h c)
qed

section \<open>The start-up script: waiting loops and the choice of the key\<close>




lemma wait_file_server_probes: "set (snd (wait_file_server sw i)) \<subseteq> {ProbeFileServer}"
proof (induction sw i rule: wait_file_server.induct)
  case (1 sw i)
  show ?case
  proof (cases "file_server_ready sw i")
    case True
    then show ?thesis by (simp add: wait_file_server.simps [of sw i])
  next
    case False
    show ?thesis
    proof (cases "i \<ge> 60")
      case True
      with False show ?thesis by (simp add: wait_file_server.simps [of sw i])
    next
      case ge: False
      with False "1.IH" show ?thesis
        by (auto simp: wait_file_server.simps [of sw i] split: prod.splits)
    qed
  qed
qed

lemma wait_proxy_probes: "set (snd (wait_proxy sw i)) \<subseteq> {ProbeProxy}"
proof (induction sw i rule: wait_proxy.induct)
  case (1 sw i)
  show ?case
  proof (cases "proxy_status sw i = ''CONNECTED''")
    case True
    then show ?thesis by (simp add: wait_proxy.simps [of sw i])
  next
    case False
    show ?thesis
    proof (cases "i \<ge> 60")
      case True
      with False show ?thesis by (simp add: wait_proxy.simps [of sw i])
    next
      case ge: False
      with False "1.IH" show ?thesis
        by (auto simp: wait_proxy.simps [of sw i] split: prod.splits)
    qed
  qed
qed

text \<open>The requests of \<open>restore_from_backup\<close>: probes, then those of \<open>restore_data\<close> when
  both waits end well.\<close>

lemma restore_from_backup_effects:
  "set (snd (restore_from_backup sw)) \<subseteq> {ProbeFileServer, ProbeProxy} \<union> set (snd (restore_data sw))"
proof -
  obtain ok1 es1 where w1: "wait_file_server sw 1 = (ok1, es1)" by (cases "wait_file_server sw 1")
  obtain ok2 es2 where w2: "wait_proxy sw 1 = (ok2, es2)" by (cases "wait_proxy sw 1")
  obtain rc es3 where w3: "restore_data sw = (rc, es3)" by (cases "restore_data sw")
  have e1: "set es1 \<subseteq> {ProbeFileServer}" using wait_file_server_probes [of sw 1] w1 by simp
  have e2: "set es2 \<subseteq> {ProbeProxy}" using wait_proxy_probes [of sw 1] w2 by simp
  have "set (snd (restore_from_backup sw)) \<subseteq> set es1 \<union> set es2 \<union> set es3"
    using w1 w2 w3 by (auto simp: restore_from_backup_def split: if_splits bool.splits)
  with e1 e2 w3 show ?thesis by auto
qed

lemma restore_from_backup_status: "fst (restore_from_backup sw) \<in> {0, 1, fst (restore_data sw)}"
  by (auto simp: restore_from_backup_def split: if_splits prod.splits bool.splits)

lemma wait_file_server_first: "file_server_ready sw i \<Longrightarrow> wait_file_server sw i = (True, [ProbeFileServer])"
  by (simp add: wait_file_server.simps [of sw i])

lemma wait_proxy_first: "proxy_status sw i = ''CONNECTED'' \<Longrightarrow> wait_proxy sw i = (True, [ProbeProxy])"
  by (simp add: wait_proxy.simps [of sw i])











section \<open>Start-up: a data directory that already holds a world\<close>

text \<open>
  C5. When \<open>/data\<close> exists and holds \<open>level.dat\<close>, \<open>restore_from_backup\<close> returns without a
  request that reaches the object store: it neither lists the backups nor asks the file
  server to restore one, so nothing is downloaded or extracted and the directory stays as
  it is. All it does is probe the local file server and the local proxy.
\<close>

theorem restore_skips_populated_directory:
  assumes "data_dir_exists sw" and "level_dat_exists sw"
  shows "(\<forall>e \<in> set (snd (restore_from_backup sw)). \<not> touches_store e) \<and>
         set (snd (restore_from_backup sw)) \<subseteq> {ProbeFileServer, ProbeProxy} \<and>
         fst (restore_from_backup sw) \<in> {0, 1}"
proof -
  have d: "restore_data sw = (0, [])" using assms by (simp add: restore_data_def)
  have s: "set (snd (restore_from_backup sw)) \<subseteq> {ProbeFileServer, ProbeProxy}"
    using restore_from_backup_effects [of sw] d by auto
  then have "\<forall>e \<in> set (snd (restore_from_backup sw)). \<not> touches_store e"
    by (auto simp: touches_store_def)
  with s restore_from_backup_status [of sw] d show ?thesis by auto
qed

theorem restore_skips_populated_directory_witness:
  "data_dir_exists populated_start \<and> level_dat_exists populated_start \<and>
   restore_from_backup populated_start = (0, [ProbeFileServer, ProbeProxy]) \<and>
   \<not> touches_store ProbeFileServer \<and> \<not> touches_store ProbeProxy"
proof -
  have f: "file_server_ready populated_start (Suc 0)"
    and p: "proxy_status populated_start (Suc 0) = ''CONNECTED''"
    by (simp_all add: populated_start_def)
  have r: "restore_from_backup populated_start = (0, [ProbeFileServer, ProbeProxy])"
    by (simp add: restore_from_backup_def restore_data_def wait_file_server_first [OF f]
        wait_proxy_first [OF p] sh_bucket_def)
      (simp add: populated_start_def)
  show ?thesis
    using restore_skips_populated_directory [of populated_start] r
    by (simp add: populated_start_def touches_store_def)
qed

section \<open>Start-up: which backup is restored\<close>







section \<open>The plugin route: environment variables change only while stopped\<close>

lemma env_block_calls:
  "r \<in> set (snd (env_block c f b)) \<Longrightarrow> sets_env r \<Longrightarrow> getStatus_reply c = Inr ''stopped''"
  by (auto simp: env_block_def sets_env_def split: option.splits sum.splits if_splits)

lemma env_block_Proceed:
  "fst (env_block c f b) = Proceed \<Longrightarrow> body_env b = None \<or> getStatus_reply c = Inr ''stopped''"
  by (auto simp: env_block_def split: option.splits sum.splits if_splits)

lemma enabled_block_calls:
  "r \<in> set (snd (enabled_block c f b)) \<Longrightarrow> sets_env r \<Longrightarrow> body_env b \<noteq> None"
  by (auto simp: enabled_block_def sets_env_def split: option.splits bool.splits)

lemma state_block_calls: "r \<in> set (snd (state_block c)) \<Longrightarrow> \<not> sets_env r"
  by (auto simp: state_block_def sets_env_def split: sum.splits)

lemma post_plugin_calls:
  assumes "r \<in> set (snd (post_plugin c f b))" and "sets_env r"
  shows "getStatus_reply c = Inr ''stopped''"
proof (cases "lookup_throws c")
  case (Some t)
  with assms show ?thesis by (simp add: post_plugin_def)
next
  case None
  obtain o1 cs1 where e1: "env_block c f b = (o1, cs1)" by (cases "env_block c f b")
  obtain o2 cs2 where e2: "enabled_block c f b = (o2, cs2)" by (cases "enabled_block c f b")
  obtain r3 cs3 where e3: "state_block c = (r3, cs3)" by (cases "state_block c")
  from assms(1) None e1 e2 e3
  have mem: "r \<in> set cs1 \<or> (o1 = Proceed \<and> (r \<in> set cs2 \<or> r \<in> set cs3))"
    by (auto simp: post_plugin_def split: outcome.splits)
  then show ?thesis
  proof
    assume "r \<in> set cs1"
    with e1 assms(2) show ?thesis using env_block_calls [of r c f b] by simp
  next
    assume a: "o1 = Proceed \<and> (r \<in> set cs2 \<or> r \<in> set cs3)"
    with e1 have p: "body_env b = None \<or> getStatus_reply c = Inr ''stopped''"
      using env_block_Proceed [of c f b] by simp
    from a e3 assms(2) have "r \<notin> set cs3" using state_block_calls [of r c] by auto
    with a have "r \<in> set cs2" by simp
    with e2 assms(2) have "body_env b \<noteq> None" using enabled_block_calls [of r c f b] by simp
    with p show ?thesis by simp
  qed
qed

lemma post_plugin_rejects:
  assumes "body_env b \<noteq> None" and "getStatus_reply c \<noteq> Inr ''stopped''"
  shows "\<exists>msg. fst (post_plugin c f b) = PluginFailure msg"
  using assms
  by (auto simp: post_plugin_def env_block_def leave_def split: option.splits sum.splits)

text \<open>
  C8. A plugin update whose body carries \<open>env\<close> while the workload's status is not
  \<open>stopped\<close> (or cannot be read) is answered with a failure, and among the calls made to
  the container none sets environment variables. In every run of the handler, a call that
  sets environment variables (\<open>setPluginEnv\<close>, or \<open>enablePlugin\<close> with an \<open>env\<close>) is made only
  when the status read was \<open>stopped\<close>.
\<close>

theorem plugin_env_rejected_unless_stopped:
  "(body_env b \<noteq> None \<and> getStatus_reply c \<noteq> Inr ''stopped'' \<longrightarrow>
      (\<exists>msg. fst (post_plugin c f b) = PluginFailure msg) \<and>
      (\<forall>r \<in> set (snd (post_plugin c f b)). \<not> sets_env r)) \<and>
   (\<forall>r \<in> set (snd (post_plugin c f b)). sets_env r \<longrightarrow> getStatus_reply c = Inr ''stopped'')"
  using post_plugin_rejects [of b c f] post_plugin_calls [of _ c f b] by blast

theorem plugin_env_rejected_unless_stopped_witness:
  "body_env env_update \<noteq> None \<and> getStatus_reply running_container \<noteq> Inr ''stopped'' \<and>
   post_plugin running_container ''dynmap.jar'' env_update =
     (PluginFailure ''Server must be stopped to change plugin environment variables'',
      [GetStatus]) \<and>
   \<not> sets_env GetStatus \<and>
   getStatus_reply stopped_container = Inr ''stopped'' \<and>
   post_plugin stopped_container ''dynmap.jar'' env_update =
     (PluginSuccess (),
      [GetStatus, SetPluginEnv ''dynmap.jar'' [(''TOKEN'', ''abc'')],
       EnablePlugin ''dynmap.jar'' (Some [(''TOKEN'', ''abc'')]), GetPluginState]) \<and>
   sets_env (SetPluginEnv ''dynmap.jar'' [(''TOKEN'', ''abc'')])"
proof -
  have r: "post_plugin running_container ''dynmap.jar'' env_update =
     (PluginFailure ''Server must be stopped to change plugin environment variables'',
      [GetStatus])"
    by (simp add: post_plugin_def env_block_def leave_def running_container_def env_update_def)
  have s: "post_plugin stopped_container ''dynmap.jar'' env_update =
     (PluginSuccess (),
      [GetStatus, SetPluginEnv ''dynmap.jar'' [(''TOKEN'', ''abc'')],
       EnablePlugin ''dynmap.jar'' (Some [(''TOKEN'', ''abc'')]), GetPluginState])"
    by (simp add: post_plugin_def env_block_def enabled_block_def state_block_def
        stopped_container_def env_update_def)
  have e: "sets_env (SetPluginEnv ''dynmap.jar'' [(''TOKEN'', ''abc'')])" "\<not> sets_env GetStatus"
    by (simp_all add: sets_env_def)
  have h: "body_env env_update \<noteq> None" "getStatus_reply running_container \<noteq> Inr ''stopped''"
    by (simp_all add: env_update_def running_container_def)
  from plugin_env_rejected_unless_stopped [of env_update running_container "''dynmap.jar''"] h
  have "\<forall>r \<in> set (snd (post_plugin running_container ''dynmap.jar'' env_update)). \<not> sets_env r"
    by blast
  moreover
  from plugin_env_rejected_unless_stopped [of env_update stopped_container "''dynmap.jar''"] s e(1)
  have t: "getStatus_reply stopped_container = Inr ''stopped''"
    by auto
  ultimately show ?thesis using r s e h by simp
qed

end
